theory Spec2Isabelle
  imports Main "HOL-Library.Word"
begin

section \<open>The plan builder of \<^verbatim>\<open>planner/core/pb_to_plan.go\<close>\<close>

text \<open>
  A shallow embedding of \<^verbatim>\<open>PBPlanBuilder\<close>: the translation of a list of wire
  executors into a physical plan, followed by the predicate push-down pass.
  Errors and run-time panics of the Go code are values of the type \<open>error\<close>;
  a function that can fail returns \<open>error + result\<close>, \<open>Inl\<close> being the failure.
  The collaborators of the builder that live in other packages (the catalog,
  the row codec, the expression decoder, the predicate extractor) are the
  fields of the record \<open>Env\<close>.
\<close>

subsection \<open>Catalog and wire data\<close>

type_synonym bytes = "8 word list"
type_synonym int64 = "64 word"
type_synonym uint64 = "64 word"

text \<open>\<^verbatim>\<open>model.CIStr\<close>: a name in its original and in its lower-case form.\<close>

record CIStr =
  cistr_O :: string
  cistr_L :: string

text \<open>\<^verbatim>\<open>types.FieldType\<close>; the builder only copies field types, so the type code stands for the whole value.\<close>

datatype FieldType = FieldType (ft_Tp: nat)

text \<open>\<^verbatim>\<open>model.ColumnInfo\<close>, \<^verbatim>\<open>model.TableInfo\<close>, \<^verbatim>\<open>model.DBInfo\<close> and \<^verbatim>\<open>table.Table\<close>.\<close>

record ColumnInfo =
  ci_ID :: int64
  ci_Name :: CIStr
  ci_FieldType :: FieldType

record TableInfo =
  ti_ID :: int64
  ti_Name :: CIStr
  ti_Columns :: "ColumnInfo list"

record DBInfo =
  db_Name :: CIStr

record TableT =
  Meta :: TableInfo
  IsClusterTable :: bool

text \<open>\<^verbatim>\<open>coprocessor.KeyRange\<close>.\<close>

record KeyRange =
  kr_Start :: bytes
  kr_End :: bytes

text \<open>The fields of \<^verbatim>\<open>types.Time\<close> that \<^verbatim>\<open>decodeToTime\<close> reads.\<close>

record MysqlTime =
  mt_Year :: int
  mt_Month :: int
  mt_Day :: int
  mt_Hour :: int
  mt_Minute :: int
  mt_Second :: int
  mt_Microsecond :: int

text \<open>\<^verbatim>\<open>tipb.Expr\<close>, the wire form of an expression: type code, value bytes, children.\<close>

datatype PBExpr = PBExpr (pe_Tp: nat) (pe_Val: bytes) (pe_Children: "PBExpr list")

text \<open>The wire messages of \<^verbatim>\<open>tipb\<close>. In an \<^verbatim>\<open>Executor\<close> every message field is a pointer that may be nil.\<close>

record PBColumnInfo =
  pbc_ColumnId :: int64

record PBTableScan =
  ts_TableId :: int64
  ts_Columns :: "PBColumnInfo list"
  ts_Desc :: bool

record PBSelection =
  sel_Conditions :: "PBExpr list"

record PBByItem =
  bi_Expr :: PBExpr
  bi_Desc :: bool

record PBTopN =
  topn_OrderBy :: "PBByItem list"
  topn_Limit :: uint64

record PBLimit =
  lim_Limit :: uint64

record PBAggregation =
  agg_GroupBy :: "PBExpr list"
  agg_AggFunc :: "PBExpr list"

record PBKill =
  kill_ConnID :: uint64
  kill_Query :: bool

datatype ExecType =
    TypeTableScan
  | TypeSelection
  | TypeTopN
  | TypeLimit
  | TypeAggregation
  | TypeStreamAgg
  | TypeKill
  | TypeOther int

record Executor =
  Tp :: ExecType
  TblScan :: "PBTableScan option"
  Selection :: "PBSelection option"
  TopN :: "PBTopN option"
  Limit :: "PBLimit option"
  Aggregation :: "PBAggregation option"
  Kill :: "PBKill option"

subsection \<open>Errors\<close>

text \<open>
  The errors the builder creates itself, the errors handed up from a
  collaborator, and the two run-time panics the code can raise (a nil message
  pointer, a slice index out of range).
\<close>

datatype error =
    ErrTableNotExists int64
  | ErrDatabaseNotExists int64
  | ErrNotClusterTable string
  | ErrColumnNotFound int64 string
  | ErrUnsupportedExecType ExecType
  | ErrExternal string
  | PanicNilPointer
  | PanicIndexOutOfRange int nat

subsection \<open>Expressions and schemas\<close>

text \<open>
  Modelled from the spec: \<^verbatim>\<open>expression.Column\<close> and \<^verbatim>\<open>expression.Expression\<close> (package
  \<^verbatim>\<open>expression\<close>). A schema column has a synthetic identifier, a source catalog
  column id and a field type; a column reference inside a predicate carries
  the positional index by which the push-down pass rebinds it.
\<close>

record Column =
  UniqueID :: int
  ID :: int64
  Index :: int
  RetType :: FieldType

datatype Datum = KindNull | KindInt64 int | KindString string

datatype Expression =
    ColumnExpr Column
  | Constant Datum
  | ScalarFunction string "Expression list"

type_synonym Schema = "Column list"

text \<open>\<^verbatim>\<open>types.FieldName\<close>, \<^verbatim>\<open>aggregation.AggFuncDesc\<close> and \<^verbatim>\<open>util.ByItems\<close>.\<close>

record FieldName =
  TblName :: CIStr
  ColName :: CIStr
  OrigTblName :: CIStr
  OrigColName :: CIStr

record AggFuncDesc =
  af_Name :: string
  af_Args :: "Expression list"
  RetTp :: FieldType

record ByItems =
  by_Expr :: Expression
  by_Desc :: bool

subsection \<open>Physical plans\<close>

text \<open>
  A physical plan is a node with its list of children
  (\<^verbatim>\<open>basePhysicalPlan.children\<close>); \<^verbatim>\<open>SetChildren\<close> replaces the whole list. The
  extractor of a memory table is an interface value of the package; its state
  is the type parameter \<open>'x\<close>. The bookkeeping of the \<^verbatim>\<open>Init\<close> methods (plan
  id, statistics, required property) is left out: the builder and the pass
  never read it. A kill statement is its connection id, its query flag and the
  mark \<^verbatim>\<open>IsFromRemote\<close>.
\<close>

record 'x PhysicalMemTable =
  DBName :: CIStr
  Table :: TableInfo
  Columns :: "ColumnInfo list"
  Extractor :: "'x option"
  schema :: Schema

datatype 'x PlanNode =
    MemTable "'x PhysicalMemTable"
  | PhysicalSelection "Expression list"
  | PhysicalTopN "ByItems list" uint64
  | PhysicalLimit uint64
  | PhysicalHashAgg "AggFuncDesc list" "Expression list" Schema
  | PhysicalStreamAgg "AggFuncDesc list" "Expression list" Schema
  | PhysicalSimpleWrapper uint64 bool bool

datatype 'x PhysicalPlan = Plan (node: "'x PlanNode") (Children: "'x PhysicalPlan list")

definition SetChildren :: "'x PhysicalPlan \<Rightarrow> 'x PhysicalPlan list \<Rightarrow> 'x PhysicalPlan" where
  "SetChildren p cs = Plan (node p) cs"

subsection \<open>The builder and its collaborators\<close>

text \<open>
  The collaborators of \<^verbatim>\<open>PBPlanBuilder\<close>, read only during a build:
  \<^item> \<open>TableByID\<close>, \<open>SchemaByTable\<close>: the info schema \<^verbatim>\<open>b.is\<close>;
  \<^item> \<open>isClusterTableSlowLog\<close>: the test
    \<^verbatim>\<open>strings.ToUpper(name) == infoschema.ClusterTableSlowLog\<close>;
  \<^item> \<open>ranges\<close>: the key ranges \<^verbatim>\<open>b.ranges\<close> (\<open>None\<close> is nil);
  \<^item> \<open>RecordRowKeyLen\<close>, \<open>DecodeRowKey\<close>: the constant and the decoder of
    \<^verbatim>\<open>tablecodec\<close>; \<open>'h\<close> is the type of a \<^verbatim>\<open>kv.Handle\<close>;
  \<^item> \<open>EncodedCol\<close>: the method of a handle; \<open>DecodeOne\<close>: the chunk decoder
    followed by the read of the decoded datum as a time; \<open>UnixNano\<close>:
    \<^verbatim>\<open>time.Date(..., time.UTC).UnixNano()\<close>;
  \<^item> \<open>PBToExpr\<close>, \<open>PBToExprs\<close>, \<open>PBExprToAggFuncDesc\<close>: the expression decoder,
    given the type context \<^verbatim>\<open>b.tps\<close>;
  \<^item> \<open>newSlowQueryExtractor\<close>: \<^verbatim>\<open>&SlowQueryExtractor{}\<close> with its \<^verbatim>\<open>Desc\<close> set;
    \<open>setTimeRange\<close> and \<open>Extract\<close>: the methods of the extractor, which return
    the extractor's new state.
\<close>

record ('h, 'x) Env =
  TableByID :: "int64 \<Rightarrow> TableT option"
  SchemaByTable :: "TableInfo \<Rightarrow> DBInfo option"
  isClusterTableSlowLog :: "string \<Rightarrow> bool"
  ranges :: "KeyRange list option"
  RecordRowKeyLen :: nat
  DecodeRowKey :: "bytes \<Rightarrow> error + 'h"
  EncodedCol :: "'h \<Rightarrow> nat \<Rightarrow> bytes"
  DecodeOne :: "bytes \<Rightarrow> error + MysqlTime"
  UnixNano :: "MysqlTime \<Rightarrow> int64"
  PBToExpr :: "PBExpr \<Rightarrow> FieldType list \<Rightarrow> error + Expression"
  PBToExprs :: "PBExpr list \<Rightarrow> FieldType list \<Rightarrow> error + Expression list"
  PBExprToAggFuncDesc :: "PBExpr \<Rightarrow> FieldType list \<Rightarrow> error + AggFuncDesc"
  newSlowQueryExtractor :: "bool \<Rightarrow> 'x"
  setTimeRange :: "'x \<Rightarrow> int64 \<Rightarrow> int64 \<Rightarrow> 'x"
  Extract :: "'x \<Rightarrow> Schema \<Rightarrow> FieldName list \<Rightarrow> Expression list \<Rightarrow> Expression list \<times> 'x"

text \<open>
  The mutable state of a build: the type context \<^verbatim>\<open>b.tps\<close> and the session's
  counter of plan column identifiers.
\<close>

record BuildState =
  tps :: "FieldType list"
  PlanColumnID :: int

text \<open>
  Modelled from the spec: \<^verbatim>\<open>SessionVars.AllocPlanColumnID\<close>, the session-scoped,
  monotonically increasing counter of synthetic column identifiers. It returns
  the next identifier and the advanced state.
\<close>

definition AllocPlanColumnID :: "BuildState \<Rightarrow> int \<times> BuildState" where
  "AllocPlanColumnID s = (PlanColumnID s + 1, s\<lparr>PlanColumnID := PlanColumnID s + 1\<rparr>)"

subsection \<open>Time ranges\<close>

text \<open>\<^verbatim>\<open>decodeToTime\<close>: the first encoded column of the handle, read as a datetime, in nanoseconds.\<close>

definition decodeToTime :: "('h, 'x) Env \<Rightarrow> 'h \<Rightarrow> error + int64" where
  "decodeToTime E handle =
     (case DecodeOne E (EncodedCol E handle 0) of
        Inl err \<Rightarrow> Inl err
      | Inr mysqlTime \<Rightarrow> Inr (UnixNano E mysqlTime))"

text \<open>
  \<^verbatim>\<open>decodeTimeRanges\<close>: the loop over the key ranges, \<open>krs\<close> being the slice built
  so far. The length test reads \<^verbatim>\<open>kr.Start\<close> in both of its conjuncts, as the
  source does.
\<close>

fun decodeTimeRangesLoop ::
  "('h, 'x) Env \<Rightarrow> (int64 \<times> int64) list \<Rightarrow> KeyRange list \<Rightarrow> error + (int64 \<times> int64) list" where
  "decodeTimeRangesLoop E krs [] = Inr krs"
| "decodeTimeRangesLoop E krs (kr # keyRanges) =
     (if length (kr_Start kr) \<ge> RecordRowKeyLen E \<and> length (kr_Start kr) \<ge> RecordRowKeyLen E then
        (case (case DecodeRowKey E (kr_Start kr) of
                 Inl err \<Rightarrow> Inr 0
               | Inr start \<Rightarrow> decodeToTime E start) of
           Inl err \<Rightarrow> Inl err
         | Inr startTime \<Rightarrow>
             (case (case DecodeRowKey E (kr_End kr) of
                      Inl err \<Rightarrow> Inr 0
                    | Inr end' \<Rightarrow> decodeToTime E end') of
                Inl err \<Rightarrow> Inl err
              | Inr endTime \<Rightarrow> decodeTimeRangesLoop E (krs @ [(startTime, endTime)]) keyRanges))
      else decodeTimeRangesLoop E krs keyRanges)"

definition decodeTimeRanges :: "('h, 'x) Env \<Rightarrow> KeyRange list \<Rightarrow> error + (int64 \<times> int64) list" where
  "decodeTimeRanges E keyRanges = decodeTimeRangesLoop E [] keyRanges"

subsection \<open>The leaf scan: column resolution and schema\<close>

text \<open>
  \<^verbatim>\<open>convertColumnInfo\<close>: for each requested column the inner loop takes the first
  catalog column with the same id (\<open>find\<close>); \<open>columns\<close> and \<open>tys\<close> are the two
  slices built so far. \<^verbatim>\<open>b.tps\<close> is assigned only when the loop has finished.
\<close>

fun convertColumnInfoLoop ::
  "TableInfo \<Rightarrow> ColumnInfo list \<Rightarrow> FieldType list \<Rightarrow> PBColumnInfo list
     \<Rightarrow> error + (ColumnInfo list \<times> FieldType list)" where
  "convertColumnInfoLoop tblInfo columns tys [] = Inr (columns, tys)"
| "convertColumnInfoLoop tblInfo columns tys (col # pbColumns) =
     (case find (\<lambda>colInfo. pbc_ColumnId col = ci_ID colInfo) (ti_Columns tblInfo) of
        None \<Rightarrow> Inl (ErrColumnNotFound (pbc_ColumnId col) (cistr_L (ti_Name tblInfo)))
      | Some colInfo \<Rightarrow>
          convertColumnInfoLoop tblInfo (columns @ [colInfo]) (tys @ [ci_FieldType colInfo]) pbColumns)"

definition convertColumnInfo ::
  "BuildState \<Rightarrow> TableInfo \<Rightarrow> PBColumnInfo list \<Rightarrow> error + (ColumnInfo list \<times> BuildState)" where
  "convertColumnInfo s tblInfo pbColumns =
     (case convertColumnInfoLoop tblInfo [] [] pbColumns of
        Inl err \<Rightarrow> Inl err
      | Inr (columns, tys) \<Rightarrow> Inr (columns, s\<lparr>tps := tys\<rparr>))"

text \<open>
  \<^verbatim>\<open>buildTableScanSchema\<close>: the outer loop runs over the catalog's columns, the
  inner loop over the resolved columns; every pair with equal ids appends one
  schema column with a newly allocated identifier.
\<close>

fun buildTableScanSchemaInner ::
  "BuildState \<Rightarrow> Schema \<Rightarrow> ColumnInfo \<Rightarrow> ColumnInfo list \<Rightarrow> Schema \<times> BuildState" where
  "buildTableScanSchemaInner s sch col [] = (sch, s)"
| "buildTableScanSchemaInner s sch col (colInfo # columns) =
     (if ci_ID col \<noteq> ci_ID colInfo then buildTableScanSchemaInner s sch col columns
      else
        (let (uid, s') = AllocPlanColumnID s;
             newCol = \<lparr>UniqueID = uid, ID = ci_ID col, Index = 0, RetType = ci_FieldType col\<rparr>
         in buildTableScanSchemaInner s' (sch @ [newCol]) col columns))"

fun buildTableScanSchemaOuter ::
  "BuildState \<Rightarrow> Schema \<Rightarrow> ColumnInfo list \<Rightarrow> ColumnInfo list \<Rightarrow> Schema \<times> BuildState" where
  "buildTableScanSchemaOuter s sch columns [] = (sch, s)"
| "buildTableScanSchemaOuter s sch columns (col # cols) =
     (let (sch', s') = buildTableScanSchemaInner s sch col columns
      in buildTableScanSchemaOuter s' sch' columns cols)"

definition buildTableScanSchema ::
  "BuildState \<Rightarrow> TableInfo \<Rightarrow> ColumnInfo list \<Rightarrow> Schema \<times> BuildState" where
  "buildTableScanSchema s tblInfo columns =
     buildTableScanSchemaOuter s [] columns (ti_Columns tblInfo)"

text \<open>
  \<^verbatim>\<open>pbToTableScan\<close>. The extractor is attached for the cluster slow-log table
  only; each decoded time range calls \<^verbatim>\<open>setTimeRange\<close> once, in order.
\<close>

definition pbToTableScan ::
  "('h, 'x) Env \<Rightarrow> BuildState \<Rightarrow> Executor \<Rightarrow> error + ('x PhysicalPlan \<times> BuildState)" where
  "pbToTableScan E s e =
     (case TblScan e of
        None \<Rightarrow> Inl PanicNilPointer
      | Some tblScan \<Rightarrow>
     (case TableByID E (ts_TableId tblScan) of
        None \<Rightarrow> Inl (ErrTableNotExists (ts_TableId tblScan))
      | Some tbl \<Rightarrow>
     (case SchemaByTable E (Meta tbl) of
        None \<Rightarrow> Inl (ErrDatabaseNotExists (ts_TableId tblScan))
      | Some dbInfo \<Rightarrow>
     if \<not> IsClusterTable tbl then Inl (ErrNotClusterTable (cistr_L (ti_Name (Meta tbl))))
     else
     (case convertColumnInfo s (Meta tbl) (ts_Columns tblScan) of
        Inl err \<Rightarrow> Inl err
      | Inr (columns, s1) \<Rightarrow>
          (let (sch, s2) = buildTableScanSchema s1 (Meta tbl) columns;
               p = \<lparr>DBName = db_Name dbInfo, Table = Meta tbl, Columns = columns,
                    Extractor = None, schema = sch\<rparr>
           in if isClusterTableSlowLog E (cistr_O (ti_Name (Table p))) then
                (let extractor = newSlowQueryExtractor E (ts_Desc tblScan)
                 in case ranges E of
                      None \<Rightarrow> Inr (Plan (MemTable (p\<lparr>Extractor := Some extractor\<rparr>)) [], s2)
                    | Some rs \<Rightarrow>
                        (case decodeTimeRanges E rs of
                           Inl err \<Rightarrow> Inl err
                         | Inr trs \<Rightarrow>
                             Inr (Plan (MemTable (p\<lparr>Extractor :=
                                    Some (foldl (\<lambda>x tr. setTimeRange E x (fst tr) (snd tr)) extractor trs)\<rparr>)) [],
                                  s2)))
              else Inr (Plan (MemTable p) [], s2))))))"

subsection \<open>The other operators\<close>

definition pbToSelection ::
  "('h, 'x) Env \<Rightarrow> BuildState \<Rightarrow> Executor \<Rightarrow> error + ('x PhysicalPlan \<times> BuildState)" where
  "pbToSelection E s e =
     (case Selection e of
        None \<Rightarrow> Inl PanicNilPointer
      | Some sel \<Rightarrow>
          (case PBToExprs E (sel_Conditions sel) (tps s) of
             Inl err \<Rightarrow> Inl err
           | Inr conds \<Rightarrow> Inr (Plan (PhysicalSelection conds) [], s)))"

fun pbToTopNLoop ::
  "('h, 'x) Env \<Rightarrow> BuildState \<Rightarrow> ByItems list \<Rightarrow> PBByItem list \<Rightarrow> error + ByItems list" where
  "pbToTopNLoop E s byItems [] = Inr byItems"
| "pbToTopNLoop E s byItems (item # items) =
     (case PBToExpr E (bi_Expr item) (tps s) of
        Inl err \<Rightarrow> Inl err
      | Inr expr \<Rightarrow> pbToTopNLoop E s (byItems @ [\<lparr>by_Expr = expr, by_Desc = bi_Desc item\<rparr>]) items)"

definition pbToTopN ::
  "('h, 'x) Env \<Rightarrow> BuildState \<Rightarrow> Executor \<Rightarrow> error + ('x PhysicalPlan \<times> BuildState)" where
  "pbToTopN E s e =
     (case TopN e of
        None \<Rightarrow> Inl PanicNilPointer
      | Some topN \<Rightarrow>
          (case pbToTopNLoop E s [] (topn_OrderBy topN) of
             Inl err \<Rightarrow> Inl err
           | Inr byItems \<Rightarrow> Inr (Plan (PhysicalTopN byItems (topn_Limit topN)) [], s)))"

definition pbToLimit ::
  "('h, 'x) Env \<Rightarrow> BuildState \<Rightarrow> Executor \<Rightarrow> error + ('x PhysicalPlan \<times> BuildState)" where
  "pbToLimit E s e =
     (case Limit e of
        None \<Rightarrow> Inl PanicNilPointer
      | Some l \<Rightarrow> Inr (Plan (PhysicalLimit (lim_Limit l)) [], s))"

text \<open>\<^verbatim>\<open>getAggInfo\<close>: the aggregate functions one by one, then the group-by expressions.\<close>

fun getAggInfoLoop ::
  "('h, 'x) Env \<Rightarrow> BuildState \<Rightarrow> AggFuncDesc list \<Rightarrow> PBExpr list \<Rightarrow> error + AggFuncDesc list" where
  "getAggInfoLoop E s aggFuncs [] = Inr aggFuncs"
| "getAggInfoLoop E s aggFuncs (expr # exprs) =
     (case PBExprToAggFuncDesc E expr (tps s) of
        Inl err \<Rightarrow> Inl err
      | Inr aggFunc \<Rightarrow> getAggInfoLoop E s (aggFuncs @ [aggFunc]) exprs)"

definition getAggInfo ::
  "('h, 'x) Env \<Rightarrow> BuildState \<Rightarrow> Executor \<Rightarrow> error + (AggFuncDesc list \<times> Expression list)" where
  "getAggInfo E s executor =
     (case Aggregation executor of
        None \<Rightarrow> Inl PanicNilPointer
      | Some agg \<Rightarrow>
          (case getAggInfoLoop E s [] (agg_AggFunc agg) of
             Inl err \<Rightarrow> Inl err
           | Inr aggFuncs \<Rightarrow>
               (case PBToExprs E (agg_GroupBy agg) (tps s) of
                  Inl err \<Rightarrow> Inl err
                | Inr groupBys \<Rightarrow> Inr (aggFuncs, groupBys))))"

text \<open>\<^verbatim>\<open>buildAggSchema\<close>: the loop runs over the aggregate functions only.\<close>

fun buildAggSchemaLoop :: "BuildState \<Rightarrow> Schema \<Rightarrow> AggFuncDesc list \<Rightarrow> Schema \<times> BuildState" where
  "buildAggSchemaLoop s sch [] = (sch, s)"
| "buildAggSchemaLoop s sch (agg # aggFuncs) =
     (let (uid, s') = AllocPlanColumnID s;
          newCol = \<lparr>UniqueID = uid, ID = 0, Index = 0, RetType = RetTp agg\<rparr>
      in buildAggSchemaLoop s' (sch @ [newCol]) aggFuncs)"

definition buildAggSchema ::
  "BuildState \<Rightarrow> AggFuncDesc list \<Rightarrow> Expression list \<Rightarrow> Schema \<times> BuildState" where
  "buildAggSchema s aggFuncs groupBys = buildAggSchemaLoop s [] aggFuncs"

definition pbToAgg ::
  "('h, 'x) Env \<Rightarrow> BuildState \<Rightarrow> Executor \<Rightarrow> bool \<Rightarrow> error + ('x PhysicalPlan \<times> BuildState)" where
  "pbToAgg E s e isStreamAgg =
     (case getAggInfo E s e of
        Inl err \<Rightarrow> Inl err
      | Inr (aggFuncs, groupBys) \<Rightarrow>
          (let (sch, s') = buildAggSchema s aggFuncs groupBys
           in if isStreamAgg then Inr (Plan (PhysicalStreamAgg aggFuncs groupBys sch) [], s')
              else Inr (Plan (PhysicalHashAgg aggFuncs groupBys sch) [], s')))"

text \<open>\<^verbatim>\<open>pbToKill\<close>: the kill statement, wrapped and marked as coming from a remote node.\<close>

definition pbToKill ::
  "('h, 'x) Env \<Rightarrow> BuildState \<Rightarrow> Executor \<Rightarrow> error + ('x PhysicalPlan \<times> BuildState)" where
  "pbToKill E s e =
     (case Kill e of
        None \<Rightarrow> Inl PanicNilPointer
      | Some k \<Rightarrow> Inr (Plan (PhysicalSimpleWrapper (kill_ConnID k) (kill_Query k) True) [], s))"

definition pbToPhysicalPlan ::
  "('h, 'x) Env \<Rightarrow> BuildState \<Rightarrow> Executor \<Rightarrow> error + ('x PhysicalPlan \<times> BuildState)" where
  "pbToPhysicalPlan E s e =
     (case Tp e of
        TypeTableScan \<Rightarrow> pbToTableScan E s e
      | TypeSelection \<Rightarrow> pbToSelection E s e
      | TypeTopN \<Rightarrow> pbToTopN E s e
      | TypeLimit \<Rightarrow> pbToLimit E s e
      | TypeAggregation \<Rightarrow> pbToAgg E s e False
      | TypeStreamAgg \<Rightarrow> pbToAgg E s e True
      | TypeKill \<Rightarrow> pbToKill E s e
      | TypeOther k \<Rightarrow> Inl (ErrUnsupportedExecType (TypeOther k)))"

subsection \<open>Predicate push-down\<close>

text \<open>
  Modelled from the spec: \<^verbatim>\<open>expression.ExtractColumnsFromExpressions\<close> with a nil
  filter, the column references of the predicates in the order of a
  left-to-right traversal.
\<close>

fun extractColumns :: "Expression \<Rightarrow> Column list" where
  "extractColumns (ColumnExpr c) = [c]"
| "extractColumns (Constant d) = []"
| "extractColumns (ScalarFunction f args) = concat (map extractColumns args)"

definition ExtractColumnsFromExpressions :: "Expression list \<Rightarrow> Column list" where
  "ExtractColumnsFromExpressions exprs = concat (map extractColumns exprs)"

text \<open>
  The assignment \<^verbatim>\<open>cols[i].UniqueID = schemaCols[cols[i].Index].UniqueID\<close>. The
  extracted columns are pointers into the predicates, so the assignment
  changes the predicates themselves: \<open>setUniqueID\<close> is its effect on one
  predicate. The slice access panics at the first column whose index is not a
  position of the schema; \<open>rebindColumns\<close> is the whole loop.
\<close>

fun setUniqueID :: "Schema \<Rightarrow> Expression \<Rightarrow> Expression" where
  "setUniqueID schemaCols (ColumnExpr c) =
     ColumnExpr (c\<lparr>UniqueID := UniqueID (schemaCols ! nat (Index c))\<rparr>)"
| "setUniqueID schemaCols (Constant d) = Constant d"
| "setUniqueID schemaCols (ScalarFunction f args) = ScalarFunction f (map (setUniqueID schemaCols) args)"

definition inRange :: "Schema \<Rightarrow> Column \<Rightarrow> bool" where
  "inRange schemaCols c = (0 \<le> Index c \<and> Index c < int (length schemaCols))"

definition rebindColumns :: "Schema \<Rightarrow> Expression list \<Rightarrow> error + Expression list" where
  "rebindColumns schemaCols predicates =
     (case find (\<lambda>c. \<not> inRange schemaCols c) (ExtractColumnsFromExpressions predicates) of
        Some c \<Rightarrow> Inl (PanicIndexOutOfRange (Index c) (length schemaCols))
      | None \<Rightarrow> Inr (map (setUniqueID schemaCols) predicates))"

definition fieldNames :: "'x PhysicalMemTable \<Rightarrow> FieldName list" where
  "fieldNames memTable =
     map (\<lambda>col. \<lparr>TblName = ti_Name (Table memTable), ColName = ci_Name col,
                 OrigTblName = ti_Name (Table memTable), OrigColName = ci_Name col\<rparr>)
       (Columns memTable)"

text \<open>
  \<^verbatim>\<open>predicatePushDown\<close> on a plan that is not nil. \<^verbatim>\<open>p.Children()[0]\<close> of a
  selection without children is an index out of range. The children of a plan
  are plans, never nil, so the nil test of the source is the \<open>None\<close> case of
  \<open>predicatePushDown\<close> below.
\<close>

fun predicatePushDownNode ::
  "('h, 'x) Env \<Rightarrow> 'x PhysicalPlan \<Rightarrow> Expression list
     \<Rightarrow> error + (Expression list \<times> 'x PhysicalPlan)" where
  "predicatePushDownNode E (Plan (MemTable memTable) cs) predicates =
     (case Extractor memTable of
        None \<Rightarrow> Inr (predicates, Plan (MemTable memTable) cs)
      | Some extractor \<Rightarrow>
          (case rebindColumns (schema memTable) predicates of
             Inl err \<Rightarrow> Inl err
           | Inr predicates' \<Rightarrow>
               (let (remained, extractor') =
                      Extract E extractor (schema memTable) (fieldNames memTable) predicates'
                in Inr (remained, Plan (MemTable (memTable\<lparr>Extractor := Some extractor'\<rparr>)) cs))))"
| "predicatePushDownNode E (Plan (PhysicalSelection conds) []) predicates =
     Inl (PanicIndexOutOfRange 0 0)"
| "predicatePushDownNode E (Plan (PhysicalSelection conds) (c # cs)) predicates =
     (case predicatePushDownNode E c conds of
        Inl err \<Rightarrow> Inl err
      | Inr (conditions, child) \<Rightarrow>
          if length conditions > 0 then Inr (predicates, Plan (PhysicalSelection conditions) [child])
          else Inr (predicates, child))"
| "predicatePushDownNode E (Plan n []) predicates = Inr (predicates, Plan n [])"
| "predicatePushDownNode E (Plan n (c # cs)) predicates =
     (case predicatePushDownNode E c [] of
        Inl err \<Rightarrow> Inl err
      | Inr (residual, child) \<Rightarrow> Inr (predicates, Plan n [child]))"

definition predicatePushDown ::
  "('h, 'x) Env \<Rightarrow> 'x PhysicalPlan option \<Rightarrow> Expression list
     \<Rightarrow> error + (Expression list \<times> 'x PhysicalPlan option)" where
  "predicatePushDown E p predicates =
     (case p of
        None \<Rightarrow> Inr (predicates, None)
      | Some q \<Rightarrow>
          (case predicatePushDownNode E q predicates of
             Inl err \<Rightarrow> Inl err
           | Inr (remained, q') \<Rightarrow> Inr (remained, Some q')))"

subsection \<open>Build\<close>

text \<open>
  The loop of \<^verbatim>\<open>Build\<close>: \<open>src\<close> is the plan built so far (\<open>None\<close> is nil), and
  each new node takes it as its only child. \<open>Build\<close> runs the loop and then the
  push-down pass with no incoming predicates.
\<close>

fun buildChain ::
  "('h, 'x) Env \<Rightarrow> BuildState \<Rightarrow> 'x PhysicalPlan option \<Rightarrow> Executor list
     \<Rightarrow> error + ('x PhysicalPlan option \<times> BuildState)" where
  "buildChain E s src [] = Inr (src, s)"
| "buildChain E s src (e # executors) =
     (case pbToPhysicalPlan E s e of
        Inl err \<Rightarrow> Inl err
      | Inr (cur, s') \<Rightarrow>
          buildChain E s'
            (Some (case src of None \<Rightarrow> cur | Some child \<Rightarrow> SetChildren cur [child]))
            executors)"

definition Build ::
  "('h, 'x) Env \<Rightarrow> BuildState \<Rightarrow> Executor list \<Rightarrow> error + ('x PhysicalPlan option \<times> BuildState)" where
  "Build E s executors =
     (case buildChain E s None executors of
        Inl err \<Rightarrow> Inl err
      | Inr (src, s') \<Rightarrow>
          (case predicatePushDown E src [] of
             Inl err \<Rightarrow> Inl err
           | Inr (remained, src') \<Rightarrow> Inr (src', s')))"

subsection \<open>Notions used in the statements\<close>





text \<open>
  The first catalog column with the id of a requested column, as the inner loop
  of \<^verbatim>\<open>convertColumnInfo\<close> finds it, and the test that a requested id is an id of
  the catalog table.
\<close>

definition resolveColumn :: "TableInfo \<Rightarrow> PBColumnInfo \<Rightarrow> ColumnInfo option" where
  "resolveColumn tblInfo col = find (\<lambda>colInfo. pbc_ColumnId col = ci_ID colInfo) (ti_Columns tblInfo)"

definition inCatalog :: "TableInfo \<Rightarrow> PBColumnInfo \<Rightarrow> bool" where
  "inCatalog tblInfo col = (pbc_ColumnId col \<in> ci_ID ` set (ti_Columns tblInfo))"

text \<open>
  The catalog columns that a scan's schema is built from: the catalog's columns
  in the catalog's order, each once for every resolved column with its id.
  \<open>freshIDs s n\<close> are the \<open>n\<close> identifiers that follow the counter of state \<open>s\<close>,
  and \<open>numbered c xs\<close> is the schema with one column per element of \<open>xs\<close> (a
  catalog id and a field type), identified by the values that follow \<open>c\<close>.
\<close>

definition matchedColumns :: "TableInfo \<Rightarrow> ColumnInfo list \<Rightarrow> ColumnInfo list" where
  "matchedColumns tblInfo columns =
     concat (map (\<lambda>col. map (\<lambda>colInfo. col) (filter (\<lambda>colInfo. ci_ID col = ci_ID colInfo) columns))
                 (ti_Columns tblInfo))"

definition freshIDs :: "BuildState \<Rightarrow> nat \<Rightarrow> int list" where
  "freshIDs s n = map (\<lambda>k. PlanColumnID s + 1 + int k) [0..<n]"

fun numbered :: "int \<Rightarrow> (int64 \<times> FieldType) list \<Rightarrow> Schema" where
  "numbered c [] = []"
| "numbered c (x # xs) =
     \<lparr>UniqueID = c + 1, ID = fst x, Index = 0, RetType = snd x\<rparr> # numbered (c + 1) xs"

text \<open>
  Plans as chains. A plan is \<open>linear\<close> when every node has at most one child;
  \<open>chainNodes\<close> lists the nodes on the path of first children, the deepest
  first; \<open>planSize\<close> counts all nodes. \<open>nodeSchema\<close> is the output schema of a
  node that has one, and \<open>planUniqueIDs\<close> collects the identifiers of all schema
  columns of a plan, the deepest node first.
\<close>

fun linear :: "'x PhysicalPlan \<Rightarrow> bool" where
  "linear (Plan n []) = True"
| "linear (Plan n [c]) = linear c"
| "linear (Plan n (c # d # cs)) = False"

fun chainNodes :: "'x PhysicalPlan \<Rightarrow> 'x PlanNode list" where
  "chainNodes (Plan n []) = [n]"
| "chainNodes (Plan n (c # cs)) = chainNodes c @ [n]"

fun planSize :: "'x PhysicalPlan \<Rightarrow> nat" where
  "planSize (Plan n cs) = Suc (sum_list (map planSize cs))"

fun nodeSchema :: "'x PlanNode \<Rightarrow> Schema" where
  "nodeSchema (MemTable memTable) = schema memTable"
| "nodeSchema (PhysicalHashAgg aggFuncs groupBys sch) = sch"
| "nodeSchema (PhysicalStreamAgg aggFuncs groupBys sch) = sch"
| "nodeSchema n = []"

fun planUniqueIDs :: "'x PhysicalPlan \<Rightarrow> int list" where
  "planUniqueIDs (Plan n cs) = concat (map planUniqueIDs cs) @ map UniqueID (nodeSchema n)"

text \<open>
  The builders run one after the other on the wire list, without the chaining:
  the nodes they return, in wire order, and the state after the last. \<open>link\<close>
  stacks a list of nodes, each on top of the plan made of the nodes before it.
  \<open>nodeIDs\<close> are the identifiers of the schema columns of a list of nodes.
\<close>

fun buildNodes ::
  "('h, 'x) Env \<Rightarrow> BuildState \<Rightarrow> Executor list \<Rightarrow> error + ('x PlanNode list \<times> BuildState)" where
  "buildNodes E s [] = Inr ([], s)"
| "buildNodes E s (e # executors) =
     (case pbToPhysicalPlan E s e of
        Inl err \<Rightarrow> Inl err
      | Inr (p, s') \<Rightarrow>
          (case buildNodes E s' executors of
             Inl err \<Rightarrow> Inl err
           | Inr (ns, s'') \<Rightarrow> Inr (node p # ns, s'')))"

fun link :: "'x PhysicalPlan option \<Rightarrow> 'x PlanNode list \<Rightarrow> 'x PhysicalPlan option" where
  "link src [] = src"
| "link src (n # ns) = link (Some (Plan n (case src of None \<Rightarrow> [] | Some child \<Rightarrow> [child]))) ns"

definition nodeIDs :: "'x PlanNode list \<Rightarrow> int list" where
  "nodeIDs ns = concat (map (\<lambda>n. map UniqueID (nodeSchema n)) ns)"

text \<open>
  Notions for the push-down pass: the kind of a node, the conditions of a
  selection node, all conditions of the selection nodes of a plan, and all
  subplans of a plan. \<open>rebound\<close> is a column reference after the assignment of
  the schema's identifier.
\<close>

fun isSelection :: "'x PlanNode \<Rightarrow> bool" where
  "isSelection (PhysicalSelection conds) = True"
| "isSelection n = False"

fun isMemTable :: "'x PlanNode \<Rightarrow> bool" where
  "isMemTable (MemTable memTable) = True"
| "isMemTable n = False"

fun nodeConds :: "'x PlanNode \<Rightarrow> Expression list" where
  "nodeConds (PhysicalSelection conds) = conds"
| "nodeConds n = []"

fun selConds :: "'x PhysicalPlan \<Rightarrow> Expression list" where
  "selConds (Plan n cs) = nodeConds n @ concat (map selConds cs)"

fun subplans :: "'x PhysicalPlan \<Rightarrow> 'x PhysicalPlan list" where
  "subplans (Plan n cs) = Plan n cs # concat (map subplans cs)"

definition rebound :: "Schema \<Rightarrow> Column \<Rightarrow> Column" where
  "rebound schemaCols c = c\<lparr>UniqueID := UniqueID (schemaCols ! nat (Index c))\<rparr>"

text \<open>
  On the path the pass walks (it stops at a memory table), no selection is the
  child of a selection.
\<close>

fun noSelectionUnderSelection :: "'x PhysicalPlan \<Rightarrow> bool" where
  "noSelectionUnderSelection (Plan (MemTable memTable) cs) = True"
| "noSelectionUnderSelection (Plan n []) = True"
| "noSelectionUnderSelection (Plan n (c # cs)) =
     ((isSelection n \<longrightarrow> \<not> isSelection (node c)) \<and> noSelectionUnderSelection c)"

text \<open>
  Predicates are bound to a schema when the rebinding of the pass succeeds on
  them and changes nothing: every column reference in them has an index that
  is a position of the schema, and carries the identifier of the schema column
  at that position.
\<close>

definition boundToSchema :: "Schema \<Rightarrow> Expression list \<Rightarrow> bool" where
  "boundToSchema sch predicates = (rebindColumns sch predicates = Inr predicates)"

text \<open>
  The contract of an extractor under which a second pass changes nothing, in
  two parts. Given no predicates, \<^verbatim>\<open>Extract\<close> returns none. Given predicates that
  are bound to the schema, \<^verbatim>\<open>Extract\<close> returns predicates that are bound to the
  schema, and, applied again in the state it left to the predicates it
  returned, it returns exactly these and leaves the extractor as it is.
\<close>

definition stableExtract :: "('h, 'x) Env \<Rightarrow> bool" where
  "stableExtract E =
     ((\<forall>x sch names. fst (Extract E x sch names []) = [])
      \<and> (\<forall>x sch names predicates remained x'.
            boundToSchema sch predicates
            \<and> Extract E x sch names predicates = (remained, x') \<longrightarrow>
            boundToSchema sch remained
            \<and> Extract E x' sch names remained = (remained, x')))"

subsection \<open>Sample collaborators\<close>

text \<open>
  A small catalog, codec, expression decoder and extractor, on which the
  theorems below are instantiated. The sample extractor follows the slow-query
  extractor in what matters to the pass: it absorbs the comparisons whose first
  argument is the column at position 0 (the time column), returns the other
  predicates unchanged, and is left unchanged by predicates it does not absorb.
\<close>

record FxExtractor =
  fx_Desc :: bool
  fx_Ranges :: "(int64 \<times> int64) list"
  fx_Absorbed :: "Expression list"

definition fxKey :: "bytes \<Rightarrow> bytes" where
  "fxKey h = [116, 0, 0, 0, 0, 0, 0, 0, 1, 95, 114, 0, 0, 0, 0, 0, 0, 0, 0] @ h"

definition fxDecodeRowKey :: "bytes \<Rightarrow> error + bytes" where
  "fxDecodeRowKey b =
     (if length b < 19 \<or> take 1 b \<noteq> [116] then Inl (ErrExternal ''invalid record key'')
      else Inr (drop 19 b))"

definition fxDecodeOne :: "bytes \<Rightarrow> error + MysqlTime" where
  "fxDecodeOne b =
     (case b of
        [] \<Rightarrow> Inl (ErrExternal ''insufficient bytes to decode value'')
      | x # xs \<Rightarrow> Inr \<lparr>mt_Year = 1970, mt_Month = 1, mt_Day = 1, mt_Hour = 0, mt_Minute = 0,
                      mt_Second = uint x, mt_Microsecond = 0\<rparr>)"

definition fxUnixNano :: "MysqlTime \<Rightarrow> int64" where
  "fxUnixNano t = word_of_int (mt_Second t * 1000000000 + mt_Microsecond t * 1000)"

definition fxCol :: "int64 \<Rightarrow> string \<Rightarrow> nat \<Rightarrow> ColumnInfo" where
  "fxCol i n t = \<lparr>ci_ID = i, ci_Name = \<lparr>cistr_O = n, cistr_L = n\<rparr>, ci_FieldType = FieldType t\<rparr>"

definition fxSlowLog :: TableInfo where
  "fxSlowLog =
     \<lparr>ti_ID = 1, ti_Name = \<lparr>cistr_O = ''CLUSTER_SLOW_QUERY'', cistr_L = ''cluster_slow_query''\<rparr>,
      ti_Columns = [fxCol 1 ''time'' 12, fxCol 2 ''query'' 15, fxCol 3 ''conn_id'' 8]\<rparr>"

definition fxProcessList :: TableInfo where
  "fxProcessList =
     \<lparr>ti_ID = 2, ti_Name = \<lparr>cistr_O = ''CLUSTER_PROCESSLIST'', cistr_L = ''cluster_processlist''\<rparr>,
      ti_Columns = [fxCol 1 ''id'' 8, fxCol 2 ''user'' 15]\<rparr>"

definition fxTableByID :: "int64 \<Rightarrow> TableT option" where
  "fxTableByID i =
     (if i = 1 then Some \<lparr>Meta = fxSlowLog, IsClusterTable = True\<rparr>
      else if i = 2 then Some \<lparr>Meta = fxProcessList, IsClusterTable = True\<rparr>
      else if i = 3 then Some \<lparr>Meta = fxProcessList\<lparr>ti_ID := 3\<rparr>, IsClusterTable = False\<rparr>
      else None)"

definition fxPBToExpr :: "PBExpr \<Rightarrow> FieldType list \<Rightarrow> error + Expression" where
  "fxPBToExpr pe tys =
     (case pe_Val pe of
        [b] \<Rightarrow>
          if unat b < length tys then
            (let c = ColumnExpr \<lparr>UniqueID = 0, ID = 0, Index = uint b, RetType = tys ! unat b\<rparr>
             in if pe_Tp pe = 1 then Inr c
                else if pe_Tp pe = 2 then Inr (ScalarFunction ''gt'' [c, Constant (KindInt64 0)])
                else Inl (ErrExternal ''unsupported expression type''))
          else Inl (ErrExternal ''column offset out of range'')
      | _ \<Rightarrow> if pe_Tp pe = 0 then Inr (Constant KindNull)
             else Inl (ErrExternal ''unsupported expression type''))"

fun fxPBToExprs :: "PBExpr list \<Rightarrow> FieldType list \<Rightarrow> error + Expression list" where
  "fxPBToExprs [] tys = Inr []"
| "fxPBToExprs (pe # pes) tys =
     (case fxPBToExpr pe tys of
        Inl err \<Rightarrow> Inl err
      | Inr e \<Rightarrow> (case fxPBToExprs pes tys of Inl err \<Rightarrow> Inl err | Inr es \<Rightarrow> Inr (e # es)))"

definition fxPBExprToAggFuncDesc :: "PBExpr \<Rightarrow> FieldType list \<Rightarrow> error + AggFuncDesc" where
  "fxPBExprToAggFuncDesc pe tys =
     (if pe_Tp pe = 3001 then Inr \<lparr>af_Name = ''count'', af_Args = [], RetTp = FieldType 8\<rparr>
      else if pe_Tp pe = 3002 then Inr \<lparr>af_Name = ''max'', af_Args = [], RetTp = FieldType 12\<rparr>
      else Inl (ErrExternal ''unsupported aggregate function''))"

fun fxIsTimePred :: "Expression \<Rightarrow> bool" where
  "fxIsTimePred (ScalarFunction f (ColumnExpr c # args)) = (Index c = 0)"
| "fxIsTimePred e = False"

definition fxExtract ::
  "FxExtractor \<Rightarrow> Schema \<Rightarrow> FieldName list \<Rightarrow> Expression list \<Rightarrow> Expression list \<times> FxExtractor" where
  "fxExtract x sch names predicates =
     (filter (\<lambda>e. \<not> fxIsTimePred e) predicates,
      x\<lparr>fx_Absorbed := fx_Absorbed x @ filter fxIsTimePred predicates\<rparr>)"

definition fxEnv :: "(bytes, FxExtractor) Env" where
  "fxEnv =
     \<lparr>TableByID = fxTableByID,
      SchemaByTable = (\<lambda>t. Some \<lparr>db_Name = \<lparr>cistr_O = ''INFORMATION_SCHEMA'', cistr_L = ''information_schema''\<rparr>\<rparr>),
      isClusterTableSlowLog = (\<lambda>n. n = ''CLUSTER_SLOW_QUERY''),
      ranges = None,
      RecordRowKeyLen = 19,
      DecodeRowKey = fxDecodeRowKey,
      EncodedCol = (\<lambda>h i. h),
      DecodeOne = fxDecodeOne,
      UnixNano = fxUnixNano,
      PBToExpr = fxPBToExpr,
      PBToExprs = fxPBToExprs,
      PBExprToAggFuncDesc = fxPBExprToAggFuncDesc,
      newSlowQueryExtractor = (\<lambda>d. \<lparr>fx_Desc = d, fx_Ranges = [], fx_Absorbed = []\<rparr>),
      setTimeRange = (\<lambda>x a b. x\<lparr>fx_Ranges := fx_Ranges x @ [(a, b)]\<rparr>),
      Extract = fxExtract\<rparr>"

definition fxExecutor :: "ExecType \<Rightarrow> Executor" where
  "fxExecutor t =
     \<lparr>Tp = t, TblScan = None, Selection = None, TopN = None, Limit = None,
      Aggregation = None, Kill = None\<rparr>"

definition fxScan :: "int64 \<Rightarrow> int64 list \<Rightarrow> Executor" where
  "fxScan t ids =
     (fxExecutor TypeTableScan)
       \<lparr>TblScan := Some \<lparr>ts_TableId = t, ts_Columns = map (\<lambda>i. \<lparr>pbc_ColumnId = i\<rparr>) ids, ts_Desc = False\<rparr>\<rparr>"

definition fxState :: BuildState where
  "fxState = \<lparr>tps = [], PlanColumnID = 100\<rparr>"

definition fxSelectionExec :: "PBExpr list \<Rightarrow> Executor" where
  "fxSelectionExec pes = (fxExecutor TypeSelection)\<lparr>Selection := Some \<lparr>sel_Conditions = pes\<rparr>\<rparr>"

definition fxLimitExec :: "uint64 \<Rightarrow> Executor" where
  "fxLimitExec n = (fxExecutor TypeLimit)\<lparr>Limit := Some \<lparr>lim_Limit = n\<rparr>\<rparr>"

definition fxAggExec :: "ExecType \<Rightarrow> PBExpr list \<Rightarrow> PBExpr list \<Rightarrow> Executor" where
  "fxAggExec t aggFuncs groupBys =
     (fxExecutor t)\<lparr>Aggregation := Some \<lparr>agg_GroupBy = groupBys, agg_AggFunc = aggFuncs\<rparr>\<rparr>"

text \<open>
  A scan of the sample slow-log table with all three columns, as the scan
  builder returns it, with a given extractor; a comparison on the time column
  (position 0) and one on the connection column (position 2), as the expression
  decoder returns them, and the same two after the pass has bound them to the
  schema of the scan.
\<close>

definition fxX0 :: FxExtractor where
  "fxX0 = \<lparr>fx_Desc = False, fx_Ranges = [], fx_Absorbed = []\<rparr>"

definition fxSchema :: Schema where
  "fxSchema =
     [\<lparr>UniqueID = 101, ID = 1, Index = 0, RetType = FieldType 12\<rparr>,
      \<lparr>UniqueID = 102, ID = 2, Index = 0, RetType = FieldType 15\<rparr>,
      \<lparr>UniqueID = 103, ID = 3, Index = 0, RetType = FieldType 8\<rparr>]"

definition fxMemTable :: "FxExtractor option \<Rightarrow> FxExtractor PhysicalMemTable" where
  "fxMemTable x =
     \<lparr>DBName = \<lparr>cistr_O = ''INFORMATION_SCHEMA'', cistr_L = ''information_schema''\<rparr>,
      Table = fxSlowLog, Columns = ti_Columns fxSlowLog, Extractor = x, schema = fxSchema\<rparr>"

definition fxPred :: "string \<Rightarrow> int \<Rightarrow> int \<Rightarrow> nat \<Rightarrow> int \<Rightarrow> Expression" where
  "fxPred f uid i t k =
     ScalarFunction f [ColumnExpr \<lparr>UniqueID = uid, ID = 0, Index = i, RetType = FieldType t\<rparr>,
                       Constant (KindInt64 k)]"

definition fxTimePred :: "int \<Rightarrow> Expression" where
  "fxTimePred k = fxPred ''gt'' 0 0 12 k"

definition fxConnPred :: "int \<Rightarrow> Expression" where
  "fxConnPred k = fxPred ''eq'' 0 2 8 k"

definition fxTimePredBound :: "int \<Rightarrow> Expression" where
  "fxTimePredBound k = fxPred ''gt'' 101 0 12 k"

definition fxConnPredBound :: "int \<Rightarrow> Expression" where
  "fxConnPredBound k = fxPred ''eq'' 103 2 8 k"

definition fxScanPlan :: "Expression list \<Rightarrow> FxExtractor PhysicalPlan" where
  "fxScanPlan absorbed = Plan (MemTable (fxMemTable (Some (fxX0\<lparr>fx_Absorbed := absorbed\<rparr>)))) []"

section \<open>Properties\<close>

subsection \<open>Time ranges\<close>




lemma pbToTableScan_decode_error:
  assumes "TblScan e = Some tblScan"
    and "TableByID E (ts_TableId tblScan) = Some tbl"
    and "SchemaByTable E (Meta tbl) = Some dbInfo"
    and "IsClusterTable tbl"
    and "convertColumnInfo s (Meta tbl) (ts_Columns tblScan) = Inr (columns, s1)"
    and "isClusterTableSlowLog E (cistr_O (ti_Name (Meta tbl)))"
    and "ranges E = Some rs"
    and "decodeTimeRanges E rs = Inl err"
  shows "pbToTableScan E s e = Inl err"
  using assms by (simp add: pbToTableScan_def Let_def split: prod.splits)




text \<open>
  C2 fails on the code: the length test of \<^verbatim>\<open>decodeTimeRanges\<close> reads
  \<^verbatim>\<open>kr.Start\<close> twice and never \<^verbatim>\<open>kr.End\<close>. A range whose end is shorter than a
  record key is processed and yields a pair, with zero for its end.
\<close>

theorem decodeTimeRanges_short_end_not_omitted:
  "length (kr_End \<lparr>kr_Start = fxKey [5], kr_End = []\<rparr>) < RecordRowKeyLen fxEnv
   \<and> decodeTimeRanges fxEnv [\<lparr>kr_Start = fxKey [5], kr_End = []\<rparr>] = Inr [(5000000000, 0)]"
  by code_simp

lemma decodeTimeRanges_end_length_unchecked:
  assumes "RecordRowKeyLen E \<le> length (kr_Start kr)"
    and "decodeTimeRanges E [kr] = Inr trs"
  shows "length trs = 1"
  using assms
  by (auto simp: decodeTimeRanges_def split: sum.splits)

subsection \<open>Column resolution\<close>

lemma resolveColumn_None: "resolveColumn tblInfo col = None \<longleftrightarrow> \<not> inCatalog tblInfo col"
  by (auto simp: resolveColumn_def inCatalog_def find_None_iff)

lemma resolveColumn_Some:
  "resolveColumn tblInfo col = Some colInfo \<Longrightarrow>
     ci_ID colInfo = pbc_ColumnId col \<and> colInfo \<in> set (ti_Columns tblInfo)"
  by (auto simp: resolveColumn_def find_Some_iff)

lemma convertColumnInfoLoop_step:
  "convertColumnInfoLoop tblInfo columns tys (col # pbColumns) =
     (case resolveColumn tblInfo col of
        None \<Rightarrow> Inl (ErrColumnNotFound (pbc_ColumnId col) (cistr_L (ti_Name tblInfo)))
      | Some colInfo \<Rightarrow>
          convertColumnInfoLoop tblInfo (columns @ [colInfo]) (tys @ [ci_FieldType colInfo]) pbColumns)"
  by (simp add: resolveColumn_def)

lemma convertColumnInfoLoop_all:
  "list_all (inCatalog tblInfo) pbColumns \<Longrightarrow>
   convertColumnInfoLoop tblInfo columns tys pbColumns =
     Inr (columns @ map (\<lambda>col. the (resolveColumn tblInfo col)) pbColumns,
          tys @ map (\<lambda>col. ci_FieldType (the (resolveColumn tblInfo col))) pbColumns)"
proof (induction pbColumns arbitrary: columns tys)
  case Nil
  then show ?case by simp
next
  case (Cons col pbColumns)
  from Cons.prems obtain colInfo where r: "resolveColumn tblInfo col = Some colInfo"
    using resolveColumn_None [of tblInfo col] by auto
  from Cons.prems have rest: "list_all (inCatalog tblInfo) pbColumns" by simp
  show ?case
    using r Cons.IH [OF rest]
    by (simp only: convertColumnInfoLoop_step) simp
qed

lemma convertColumnInfoLoop_missing:
  "find (\<lambda>col. \<not> inCatalog tblInfo col) pbColumns = Some col \<Longrightarrow>
   convertColumnInfoLoop tblInfo columns tys pbColumns =
     Inl (ErrColumnNotFound (pbc_ColumnId col) (cistr_L (ti_Name tblInfo)))"
proof (induction pbColumns arbitrary: columns tys)
  case Nil
  then show ?case by simp
next
  case (Cons c pbColumns)
  show ?case
  proof (cases "inCatalog tblInfo c")
    case True
    then obtain colInfo where r: "resolveColumn tblInfo c = Some colInfo"
      using resolveColumn_None [of tblInfo c] by auto
    from True Cons.prems have "find (\<lambda>col. \<not> inCatalog tblInfo col) pbColumns = Some col" by simp
    from Cons.IH [OF this] r show ?thesis
      by (simp only: convertColumnInfoLoop_step) simp
  next
    case False
    with Cons.prems have "c = col" by simp
    moreover from False have "resolveColumn tblInfo c = None" by (simp add: resolveColumn_None)
    ultimately show ?thesis by (simp only: convertColumnInfoLoop_step) simp
  qed
qed

lemma find_missing_cases:
  "list_all P xs \<or> (\<exists>x. find (\<lambda>x. \<not> P x) xs = Some x)"
  by (induction xs) auto

text \<open>
  C6. Column resolution is all or nothing. When every requested id is an id of
  the catalog table, \<^verbatim>\<open>convertColumnInfo\<close> returns, in request order, the first
  catalog column with each id, and sets the type context to their field types.
  Otherwise it fails with \<open>ErrColumnNotFound\<close> for the first requested id that is
  missing and the lower-case table name, returns no column, and the table scan
  and the whole build fail with that error.
\<close>

theorem convertColumnInfo_all_or_nothing:
  "(list_all (inCatalog tblInfo) pbColumns \<longrightarrow>
      (\<exists>columns. convertColumnInfo s tblInfo pbColumns = Inr (columns, s\<lparr>tps := map ci_FieldType columns\<rparr>)
         \<and> columns = map (\<lambda>col. the (resolveColumn tblInfo col)) pbColumns
         \<and> map ci_ID columns = map pbc_ColumnId pbColumns
         \<and> set columns \<subseteq> set (ti_Columns tblInfo)))
   \<and> (\<not> list_all (inCatalog tblInfo) pbColumns \<longrightarrow>
      (\<exists>col. find (\<lambda>col. \<not> inCatalog tblInfo col) pbColumns = Some col
         \<and> convertColumnInfo s tblInfo pbColumns =
             Inl (ErrColumnNotFound (pbc_ColumnId col) (cistr_L (ti_Name tblInfo)))
         \<and> (\<forall>(E :: ('h, 'x) Env) e executors tblScan tbl dbInfo.
               Tp e = TypeTableScan \<and> TblScan e = Some tblScan
               \<and> ts_Columns tblScan = pbColumns
               \<and> TableByID E (ts_TableId tblScan) = Some tbl \<and> Meta tbl = tblInfo
               \<and> SchemaByTable E tblInfo = Some dbInfo \<and> IsClusterTable tbl \<longrightarrow>
               pbToTableScan E s e = Inl (ErrColumnNotFound (pbc_ColumnId col) (cistr_L (ti_Name tblInfo)))
               \<and> Build E s (e # executors) =
                   Inl (ErrColumnNotFound (pbc_ColumnId col) (cistr_L (ti_Name tblInfo))))))"
proof (intro conjI impI)
  assume all: "list_all (inCatalog tblInfo) pbColumns"
  let ?cols = "map (\<lambda>col. the (resolveColumn tblInfo col)) pbColumns"
  have conv: "convertColumnInfo s tblInfo pbColumns = Inr (?cols, s\<lparr>tps := map ci_FieldType ?cols\<rparr>)"
    using convertColumnInfoLoop_all [OF all, of "[]" "[]"]
    by (simp add: convertColumnInfo_def comp_def)
  have each: "\<And>col. col \<in> set pbColumns \<Longrightarrow>
      ci_ID (the (resolveColumn tblInfo col)) = pbc_ColumnId col
      \<and> the (resolveColumn tblInfo col) \<in> set (ti_Columns tblInfo)"
  proof -
    fix col assume "col \<in> set pbColumns"
    with all have "inCatalog tblInfo col" by (simp add: list_all_iff)
    then obtain colInfo where "resolveColumn tblInfo col = Some colInfo"
      using resolveColumn_None [of tblInfo col] by auto
    then show "ci_ID (the (resolveColumn tblInfo col)) = pbc_ColumnId col
      \<and> the (resolveColumn tblInfo col) \<in> set (ti_Columns tblInfo)"
      using resolveColumn_Some by fastforce
  qed
  have ids: "map ci_ID ?cols = map pbc_ColumnId pbColumns"
    using each by (simp add: comp_def)
  have sub: "set ?cols \<subseteq> set (ti_Columns tblInfo)"
    using each by auto
  from conv ids sub
  show "\<exists>columns. convertColumnInfo s tblInfo pbColumns = Inr (columns, s\<lparr>tps := map ci_FieldType columns\<rparr>)
         \<and> columns = ?cols
         \<and> map ci_ID columns = map pbc_ColumnId pbColumns
         \<and> set columns \<subseteq> set (ti_Columns tblInfo)"
    by blast
next
  assume "\<not> list_all (inCatalog tblInfo) pbColumns"
  then obtain col where f: "find (\<lambda>col. \<not> inCatalog tblInfo col) pbColumns = Some col"
    using find_missing_cases [of "inCatalog tblInfo" pbColumns] by blast
  let ?err = "ErrColumnNotFound (pbc_ColumnId col) (cistr_L (ti_Name tblInfo))"
  have conv: "convertColumnInfo s tblInfo pbColumns = Inl ?err"
    using convertColumnInfoLoop_missing [OF f, of "[]" "[]"] by (simp add: convertColumnInfo_def)
  have scan: "pbToTableScan E s e = Inl ?err \<and> Build E s (e # executors) = Inl ?err"
    if "Tp e = TypeTableScan \<and> TblScan e = Some tblScan
               \<and> ts_Columns tblScan = pbColumns
               \<and> TableByID E (ts_TableId tblScan) = Some tbl \<and> Meta tbl = tblInfo
               \<and> SchemaByTable E tblInfo = Some dbInfo \<and> IsClusterTable tbl"
    for E :: "('h, 'x) Env" and e executors tblScan tbl dbInfo
  proof -
    from that conv have "pbToTableScan E s e = Inl ?err"
      by (simp add: pbToTableScan_def)
    moreover from this that have "Build E s (e # executors) = Inl ?err"
      by (simp add: Build_def pbToPhysicalPlan_def)
    ultimately show ?thesis by simp
  qed
  from f conv scan
  show "\<exists>col. find (\<lambda>col. \<not> inCatalog tblInfo col) pbColumns = Some col
         \<and> convertColumnInfo s tblInfo pbColumns =
             Inl (ErrColumnNotFound (pbc_ColumnId col) (cistr_L (ti_Name tblInfo)))
         \<and> (\<forall>(E :: ('h, 'x) Env) e executors tblScan tbl dbInfo.
               Tp e = TypeTableScan \<and> TblScan e = Some tblScan
               \<and> ts_Columns tblScan = pbColumns
               \<and> TableByID E (ts_TableId tblScan) = Some tbl \<and> Meta tbl = tblInfo
               \<and> SchemaByTable E tblInfo = Some dbInfo \<and> IsClusterTable tbl \<longrightarrow>
               pbToTableScan E s e = Inl (ErrColumnNotFound (pbc_ColumnId col) (cistr_L (ti_Name tblInfo)))
               \<and> Build E s (e # executors) =
                   Inl (ErrColumnNotFound (pbc_ColumnId col) (cistr_L (ti_Name tblInfo))))"
    by blast
qed

theorem convertColumnInfo_all_or_nothing_witness:
  "convertColumnInfo fxState fxSlowLog [\<lparr>pbc_ColumnId = 3\<rparr>, \<lparr>pbc_ColumnId = 1\<rparr>]
     = Inr ([fxCol 3 ''conn_id'' 8, fxCol 1 ''time'' 12], fxState\<lparr>tps := [FieldType 8, FieldType 12]\<rparr>)
   \<and> convertColumnInfo fxState fxSlowLog [\<lparr>pbc_ColumnId = 1\<rparr>, \<lparr>pbc_ColumnId = 9\<rparr>, \<lparr>pbc_ColumnId = 8\<rparr>]
     = Inl (ErrColumnNotFound 9 ''cluster_slow_query'')
   \<and> Build fxEnv fxState [fxScan 1 [1, 9, 8], fxExecutor TypeLimit]
     = Inl (ErrColumnNotFound 9 ''cluster_slow_query'')"
proof -
  let ?good = "[\<lparr>pbc_ColumnId = 3\<rparr>, \<lparr>pbc_ColumnId = 1\<rparr>]"
  let ?bad = "[\<lparr>pbc_ColumnId = 1\<rparr>, \<lparr>pbc_ColumnId = 9\<rparr>, \<lparr>pbc_ColumnId = 8\<rparr>]"
  have g: "list_all (inCatalog fxSlowLog) ?good"
    by (simp add: inCatalog_def fxSlowLog_def fxCol_def)
  have gv: "map (\<lambda>col. the (resolveColumn fxSlowLog col)) ?good = [fxCol 3 ''conn_id'' 8, fxCol 1 ''time'' 12]"
    by (simp add: resolveColumn_def fxSlowLog_def fxCol_def)
  have b: "\<not> list_all (inCatalog fxSlowLog) ?bad"
    by (simp add: inCatalog_def fxSlowLog_def fxCol_def)
  have bv: "find (\<lambda>col. \<not> inCatalog fxSlowLog col) ?bad = Some \<lparr>pbc_ColumnId = 9\<rparr>"
    by (simp add: inCatalog_def fxSlowLog_def fxCol_def)
  have nm: "cistr_L (ti_Name fxSlowLog) = ''cluster_slow_query''"
    by (simp add: fxSlowLog_def)
  have sc: "Tp (fxScan 1 [1, 9, 8]) = TypeTableScan
      \<and> TblScan (fxScan 1 [1, 9, 8]) = Some \<lparr>ts_TableId = 1, ts_Columns = ?bad, ts_Desc = False\<rparr>
      \<and> ts_Columns \<lparr>ts_TableId = 1, ts_Columns = ?bad, ts_Desc = False\<rparr> = ?bad
      \<and> TableByID fxEnv (ts_TableId \<lparr>ts_TableId = 1, ts_Columns = ?bad, ts_Desc = False\<rparr>)
          = Some \<lparr>Meta = fxSlowLog, IsClusterTable = True\<rparr>
      \<and> Meta \<lparr>Meta = fxSlowLog, IsClusterTable = True\<rparr> = fxSlowLog
      \<and> SchemaByTable fxEnv fxSlowLog
          = Some \<lparr>db_Name = \<lparr>cistr_O = ''INFORMATION_SCHEMA'', cistr_L = ''information_schema''\<rparr>\<rparr>
      \<and> IsClusterTable \<lparr>Meta = fxSlowLog, IsClusterTable = True\<rparr>"
    by (simp add: fxScan_def fxExecutor_def fxEnv_def fxTableByID_def)
  note good = convertColumnInfo_all_or_nothing [of fxSlowLog ?good fxState]
  note bad = convertColumnInfo_all_or_nothing [of fxSlowLog ?bad fxState,
      where ?'h = bytes and ?'x = FxExtractor]
  from good g gv have 1: "convertColumnInfo fxState fxSlowLog ?good
     = Inr ([fxCol 3 ''conn_id'' 8, fxCol 1 ''time'' 12], fxState\<lparr>tps := [FieldType 8, FieldType 12]\<rparr>)"
    by (simp add: fxCol_def)
  from bad b bv nm have 2: "convertColumnInfo fxState fxSlowLog ?bad
       = Inl (ErrColumnNotFound 9 ''cluster_slow_query'')
     \<and> (\<forall>(E :: (bytes, FxExtractor) Env) e executors tblScan tbl dbInfo.
               Tp e = TypeTableScan \<and> TblScan e = Some tblScan
               \<and> ts_Columns tblScan = ?bad
               \<and> TableByID E (ts_TableId tblScan) = Some tbl \<and> Meta tbl = fxSlowLog
               \<and> SchemaByTable E fxSlowLog = Some dbInfo \<and> IsClusterTable tbl \<longrightarrow>
               pbToTableScan E fxState e = Inl (ErrColumnNotFound 9 ''cluster_slow_query'')
               \<and> Build E fxState (e # executors) = Inl (ErrColumnNotFound 9 ''cluster_slow_query''))"
    by auto
  from 2 sc have 3: "Build fxEnv fxState [fxScan 1 [1, 9, 8], fxExecutor TypeLimit]
     = Inl (ErrColumnNotFound 9 ''cluster_slow_query'')"
    by blast
  from 1 2 3 show ?thesis by blast
qed

subsection \<open>Schemas and identifiers\<close>

lemma numbered_append:
  "numbered c (xs @ ys) = numbered c xs @ numbered (c + int (length xs)) ys"
  by (induction xs arbitrary: c) (simp_all add: add.assoc)

lemma numbered_length [simp]: "length (numbered c xs) = length xs"
  by (induction xs arbitrary: c) simp_all

lemma numbered_ID: "map ID (numbered c xs) = map fst xs"
  by (induction xs arbitrary: c) simp_all

lemma numbered_RetType: "map RetType (numbered c xs) = map snd xs"
  by (induction xs arbitrary: c) simp_all

lemma numbered_UniqueID:
  "map UniqueID (numbered c xs) = map (\<lambda>k. c + 1 + int k) [0..<length xs]"
proof (induction xs arbitrary: c)
  case Nil
  then show ?case by simp
next
  case (Cons x xs)
  have "map (\<lambda>k. c + 1 + int k) [0..<Suc (length xs)]
      = (c + 1) # map (\<lambda>k. c + 1 + 1 + int k) [0..<length xs]"
    by (simp add: upt_conv_Cons map_Suc_upt [symmetric] del: upt_Suc)
  with Cons.IH [of "c + 1"] show ?case by simp
qed

lemma freshIDs_distinct: "distinct (freshIDs s n)"
  by (simp add: freshIDs_def distinct_map inj_on_def)

lemma freshIDs_range: "u \<in> set (freshIDs s n) \<Longrightarrow> PlanColumnID s < u \<and> u \<le> PlanColumnID s + int n"
  by (auto simp: freshIDs_def)

lemma buildTableScanSchemaInner_eq:
  "buildTableScanSchemaInner s sch col columns =
     (sch @ numbered (PlanColumnID s)
              (map (\<lambda>colInfo. (ci_ID col, ci_FieldType col)) (filter (\<lambda>colInfo. ci_ID col = ci_ID colInfo) columns)),
      s\<lparr>PlanColumnID := PlanColumnID s + int (length (filter (\<lambda>colInfo. ci_ID col = ci_ID colInfo) columns))\<rparr>)"
proof (induction columns arbitrary: s sch)
  case Nil
  then show ?case by simp
next
  case (Cons colInfo columns)
  show ?case
  proof (cases "ci_ID col = ci_ID colInfo")
    case True
    then show ?thesis
      using Cons.IH [of "s\<lparr>PlanColumnID := PlanColumnID s + 1\<rparr>"]
      by (simp add: AllocPlanColumnID_def add.assoc)
  next
    case False
    then show ?thesis using Cons.IH [of s sch] by simp
  qed
qed

lemma buildTableScanSchemaOuter_eq:
  "buildTableScanSchemaOuter s sch columns cols =
     (sch @ numbered (PlanColumnID s)
              (map (\<lambda>col. (ci_ID col, ci_FieldType col)) (matchedColumns \<lparr>ti_ID = 0, ti_Name = n, ti_Columns = cols\<rparr> columns)),
      s\<lparr>PlanColumnID := PlanColumnID s + int (length (matchedColumns \<lparr>ti_ID = 0, ti_Name = n, ti_Columns = cols\<rparr> columns))\<rparr>)"
proof (induction cols arbitrary: s sch)
  case Nil
  then show ?case by (simp add: matchedColumns_def)
next
  case (Cons col cols)
  show ?case
    using Cons.IH
    by (simp add: buildTableScanSchemaInner_eq matchedColumns_def numbered_append comp_def add.assoc)
qed

lemma buildTableScanSchema_eq:
  "buildTableScanSchema s tblInfo columns =
     (numbered (PlanColumnID s) (map (\<lambda>col. (ci_ID col, ci_FieldType col)) (matchedColumns tblInfo columns)),
      s\<lparr>PlanColumnID := PlanColumnID s + int (length (matchedColumns tblInfo columns))\<rparr>)"
  using buildTableScanSchemaOuter_eq [of s "[]" columns "ti_Columns tblInfo" undefined]
  by (simp add: buildTableScanSchema_def matchedColumns_def)

lemma concat_singletons:
  "concat (map (\<lambda>x. if P x then [x] else []) xs) = filter P xs"
  by (induction xs) simp_all

lemma matching_columns_distinct:
  "distinct (map ci_ID columns) \<Longrightarrow>
   map (\<lambda>colInfo. col) (filter (\<lambda>colInfo. ci_ID col = ci_ID colInfo) columns)
     = (if ci_ID col \<in> ci_ID ` set columns then [col] else [])"
  by (induction columns) (auto simp: image_iff)

lemma matchedColumns_distinct:
  assumes "distinct (map ci_ID columns)"
  shows "matchedColumns tblInfo columns
       = filter (\<lambda>col. ci_ID col \<in> ci_ID ` set columns) (ti_Columns tblInfo)"
  unfolding matchedColumns_def matching_columns_distinct [OF assms]
  by (rule concat_singletons)

lemma buildAggSchemaLoop_eq:
  "buildAggSchemaLoop s sch aggFuncs =
     (sch @ numbered (PlanColumnID s) (map (\<lambda>agg. (0, RetTp agg)) aggFuncs),
      s\<lparr>PlanColumnID := PlanColumnID s + int (length aggFuncs)\<rparr>)"
proof (induction aggFuncs arbitrary: s sch)
  case Nil
  then show ?case by simp
next
  case (Cons agg aggFuncs)
  show ?case
    using Cons.IH [of "s\<lparr>PlanColumnID := PlanColumnID s + 1\<rparr>"]
    by (simp add: AllocPlanColumnID_def add.assoc)
qed

lemma buildAggSchema_eq:
  "buildAggSchema s aggFuncs groupBys =
     (numbered (PlanColumnID s) (map (\<lambda>agg. (0, RetTp agg)) aggFuncs),
      s\<lparr>PlanColumnID := PlanColumnID s + int (length aggFuncs)\<rparr>)"
  by (simp add: buildAggSchema_def buildAggSchemaLoop_eq)


lemma freshIDs_append:
  "PlanColumnID s' = PlanColumnID s + int a \<Longrightarrow> freshIDs s a @ freshIDs s' b = freshIDs s (a + b)"
proof -
  assume s': "PlanColumnID s' = PlanColumnID s + int a"
  have 1: "map (\<lambda>k. PlanColumnID s + 1 + int k) [a..<a + b]
      = map (\<lambda>k. PlanColumnID s + int a + 1 + int k) [0..<b]"
    by (induction b) simp_all
  have 2: "[0..<a + b] = [0..<a] @ [a..<a + b]"
    using upt_add_eq_append [of 0 a b] by simp
  show ?thesis
    unfolding freshIDs_def 2 map_append 1 s' by simp
qed

lemma pbToTableScan_Inr:
  assumes "pbToTableScan E s e = Inr (p, s')"
  shows "\<exists>tblScan tbl dbInfo columns s1 m.
      TblScan e = Some tblScan \<and> TableByID E (ts_TableId tblScan) = Some tbl
    \<and> SchemaByTable E (Meta tbl) = Some dbInfo \<and> IsClusterTable tbl
    \<and> convertColumnInfo s (Meta tbl) (ts_Columns tblScan) = Inr (columns, s1)
    \<and> p = Plan (MemTable m) []
    \<and> DBName m = db_Name dbInfo \<and> Table m = Meta tbl \<and> Columns m = columns
    \<and> schema m = fst (buildTableScanSchema s1 (Meta tbl) columns)
    \<and> s' = snd (buildTableScanSchema s1 (Meta tbl) columns)"
proof -
  from assms obtain tblScan where 1: "TblScan e = Some tblScan"
    by (cases "TblScan e") (simp_all add: pbToTableScan_def)
  from assms 1 obtain tbl where 2: "TableByID E (ts_TableId tblScan) = Some tbl"
    by (cases "TableByID E (ts_TableId tblScan)") (simp_all add: pbToTableScan_def)
  from assms 1 2 obtain dbInfo where 3: "SchemaByTable E (Meta tbl) = Some dbInfo"
    by (cases "SchemaByTable E (Meta tbl)") (simp_all add: pbToTableScan_def)
  from assms 1 2 3 have 4: "IsClusterTable tbl"
    by (cases "IsClusterTable tbl") (simp_all add: pbToTableScan_def)
  from assms 1 2 3 4 obtain columns s1 where
    5: "convertColumnInfo s (Meta tbl) (ts_Columns tblScan) = Inr (columns, s1)"
    by (cases "convertColumnInfo s (Meta tbl) (ts_Columns tblScan)") (auto simp add: pbToTableScan_def)
  obtain sch s2 where 6: "buildTableScanSchema s1 (Meta tbl) columns = (sch, s2)"
    by (cases "buildTableScanSchema s1 (Meta tbl) columns")
  let ?p = "\<lambda>x. Plan (MemTable \<lparr>DBName = db_Name dbInfo, Table = Meta tbl, Columns = columns,
             Extractor = x, schema = sch\<rparr>) []"
  let ?x0 = "newSlowQueryExtractor E (ts_Desc tblScan)"
  have 7: "pbToTableScan E s e =
     (if isClusterTableSlowLog E (cistr_O (ti_Name (Meta tbl))) then
        (case ranges E of
           None \<Rightarrow> Inr (?p (Some ?x0), s2)
         | Some rs \<Rightarrow>
            (case decodeTimeRanges E rs of
               Inl err \<Rightarrow> Inl err
             | Inr trs \<Rightarrow>
                 Inr (?p (Some (foldl (\<lambda>x tr. setTimeRange E x (fst tr) (snd tr)) ?x0 trs)), s2)))
      else Inr (?p None, s2))"
    using 1 2 3 4 5 6 by (simp add: pbToTableScan_def Let_def split: option.splits sum.splits)
  have "\<exists>m. p = Plan (MemTable m) [] \<and> DBName m = db_Name dbInfo \<and> Table m = Meta tbl
      \<and> Columns m = columns \<and> schema m = sch \<and> s' = s2"
  proof (cases "isClusterTableSlowLog E (cistr_O (ti_Name (Meta tbl)))")
    case False
    with assms 7 have "p = ?p None \<and> s' = s2" by simp
    then show ?thesis by simp
  next
    case True
    show ?thesis
    proof (cases "ranges E")
      case None
      with True assms 7 have "p = ?p (Some ?x0) \<and> s' = s2" by simp
      then show ?thesis by simp
    next
      case (Some rs)
      with True assms 7 obtain trs where
        "p = ?p (Some (foldl (\<lambda>x tr. setTimeRange E x (fst tr) (snd tr)) ?x0 trs)) \<and> s' = s2"
        by (cases "decodeTimeRanges E rs") auto
      then show ?thesis by simp
    qed
  qed
  with 1 2 3 4 5 6 show ?thesis by simp
qed

lemma convertColumnInfo_counter:
  "convertColumnInfo s tblInfo pbColumns = Inr (columns, s1) \<Longrightarrow> PlanColumnID s1 = PlanColumnID s"
  by (auto simp: convertColumnInfo_def split: sum.splits)

lemma pbToTableScan_fresh:
  assumes "pbToTableScan E s e = Inr (p, s')"
  shows "Children p = [] \<and>
    (\<exists>n. map UniqueID (nodeSchema (node p)) = freshIDs s n \<and> PlanColumnID s' = PlanColumnID s + int n)"
proof -
  from pbToTableScan_Inr [OF assms] obtain tblScan tbl dbInfo columns s1 m where
    "TblScan e = Some tblScan" "TableByID E (ts_TableId tblScan) = Some tbl"
    and c: "convertColumnInfo s (Meta tbl) (ts_Columns tblScan) = Inr (columns, s1)"
    and p: "p = Plan (MemTable m) []"
    and m: "schema m = fst (buildTableScanSchema s1 (Meta tbl) columns)"
    and s': "s' = snd (buildTableScanSchema s1 (Meta tbl) columns)"
    by blast
  have k: "PlanColumnID s1 = PlanColumnID s" by (rule convertColumnInfo_counter [OF c])
  let ?n = "length (matchedColumns (Meta tbl) columns)"
  have "map UniqueID (nodeSchema (node p)) = freshIDs s ?n"
    using p m k by (simp add: buildTableScanSchema_eq numbered_UniqueID freshIDs_def)
  moreover have "PlanColumnID s' = PlanColumnID s + int ?n"
    using s' k by (simp add: buildTableScanSchema_eq)
  moreover have "Children p = []" using p by simp
  ultimately show ?thesis by blast
qed

lemma pbToAgg_fresh:
  assumes "pbToAgg E s e isStreamAgg = Inr (p, s')"
  shows "Children p = [] \<and>
    (\<exists>n. map UniqueID (nodeSchema (node p)) = freshIDs s n \<and> PlanColumnID s' = PlanColumnID s + int n)"
proof -
  from assms obtain aggFuncs groupBys where g: "getAggInfo E s e = Inr (aggFuncs, groupBys)"
    by (cases "getAggInfo E s e") (auto simp: pbToAgg_def)
  let ?sch = "numbered (PlanColumnID s) (map (\<lambda>agg. (0, RetTp agg)) aggFuncs)"
  from assms g have p: "p = Plan (if isStreamAgg then PhysicalStreamAgg aggFuncs groupBys ?sch
                                  else PhysicalHashAgg aggFuncs groupBys ?sch) []"
    and s': "s' = s\<lparr>PlanColumnID := PlanColumnID s + int (length aggFuncs)\<rparr>"
    by (auto simp: pbToAgg_def buildAggSchema_eq split: if_splits)
  have "map UniqueID (nodeSchema (node p)) = freshIDs s (length aggFuncs)"
    using p by (simp add: numbered_UniqueID freshIDs_def)
  moreover have "PlanColumnID s' = PlanColumnID s + int (length aggFuncs)" using s' by simp
  moreover have "Children p = []" using p by simp
  ultimately show ?thesis by blast
qed

lemma no_schema_fresh:
  assumes "Children p = []" "nodeSchema (node p) = []" "s' = s"
  shows "Children p = [] \<and>
    (\<exists>n. map UniqueID (nodeSchema (node p)) = freshIDs s n \<and> PlanColumnID s' = PlanColumnID s + int n)"
  using assms by (auto simp: freshIDs_def intro: exI [of _ 0])

lemma pbToPhysicalPlan_fresh:
  assumes "pbToPhysicalPlan E s e = Inr (p, s')"
  shows "Children p = [] \<and>
    (\<exists>n. map UniqueID (nodeSchema (node p)) = freshIDs s n \<and> PlanColumnID s' = PlanColumnID s + int n)"
proof (cases "Tp e")
  case TypeTableScan
  with assms show ?thesis by (simp add: pbToPhysicalPlan_def pbToTableScan_fresh)
next
  case TypeSelection
  with assms have "pbToSelection E s e = Inr (p, s')" by (simp add: pbToPhysicalPlan_def)
  then show ?thesis
    by (intro no_schema_fresh) (auto simp: pbToSelection_def split: option.splits sum.splits)
next
  case TypeTopN
  with assms have "pbToTopN E s e = Inr (p, s')" by (simp add: pbToPhysicalPlan_def)
  then show ?thesis
    by (intro no_schema_fresh) (auto simp: pbToTopN_def split: option.splits sum.splits)
next
  case TypeLimit
  with assms have "pbToLimit E s e = Inr (p, s')" by (simp add: pbToPhysicalPlan_def)
  then show ?thesis
    by (intro no_schema_fresh) (auto simp: pbToLimit_def split: option.splits sum.splits)
next
  case TypeAggregation
  with assms show ?thesis by (simp add: pbToPhysicalPlan_def pbToAgg_fresh)
next
  case TypeStreamAgg
  with assms show ?thesis by (simp add: pbToPhysicalPlan_def pbToAgg_fresh)
next
  case TypeKill
  with assms have "pbToKill E s e = Inr (p, s')" by (simp add: pbToPhysicalPlan_def)
  then show ?thesis
    by (intro no_schema_fresh) (auto simp: pbToKill_def split: option.splits sum.splits)
next
  case (TypeOther k)
  with assms show ?thesis by (simp add: pbToPhysicalPlan_def)
qed

subsection \<open>The assembled chain\<close>

lemma link_Some:
  "linear p \<Longrightarrow>
   \<exists>q. link (Some p) ns = Some q \<and> linear q \<and> chainNodes q = chainNodes p @ ns
     \<and> planSize q = planSize p + length ns
     \<and> planUniqueIDs q = planUniqueIDs p @ nodeIDs ns"
proof (induction ns arbitrary: p)
  case Nil
  then show ?case by (simp add: nodeIDs_def)
next
  case (Cons n ns)
  have "linear (Plan n [p])" using Cons.prems by simp
  from Cons.IH [OF this] show ?case by (auto simp: nodeIDs_def)
qed

lemma link_None_Some:
  "ns \<noteq> [] \<Longrightarrow>
   \<exists>q. link None ns = Some q \<and> linear q \<and> chainNodes q = ns \<and> planSize q = length ns
     \<and> planUniqueIDs q = nodeIDs ns"
proof (cases ns)
  case Nil
  assume "ns \<noteq> []"
  with Nil show ?thesis by simp
next
  case (Cons n ms)
  from link_Some [of "Plan n []" ms] show ?thesis
    using Cons by (auto simp: nodeIDs_def)
qed

lemma Plan_node_Children: "Children p = [] \<Longrightarrow> p = Plan (node p) []"
  by (cases p) simp

lemma buildChain_buildNodes:
  "buildChain E s src executors =
     (case buildNodes E s executors of
        Inl err \<Rightarrow> Inl err
      | Inr (ns, s') \<Rightarrow> Inr (link src ns, s'))"
proof (induction executors arbitrary: s src)
  case Nil
  then show ?case by simp
next
  case (Cons e executors)
  show ?case
  proof (cases "pbToPhysicalPlan E s e")
    case (Inl err)
    then show ?thesis by simp
  next
    case (Inr r)
    obtain cur s1 where r: "r = (cur, s1)" by (cases r)
    from Inr r have "Children cur = []" using pbToPhysicalPlan_fresh by blast
    then have cur: "cur = Plan (node cur) []" by (rule Plan_node_Children)
    have "(case src of None \<Rightarrow> cur | Some child \<Rightarrow> SetChildren cur [child])
        = Plan (node cur) (case src of None \<Rightarrow> [] | Some child \<Rightarrow> [child])"
      using cur by (cases src) (simp_all add: SetChildren_def)
    then show ?thesis
      using Inr r Cons.IH by (simp split: sum.splits prod.splits)
  qed
qed

lemma buildNodes_length:
  "buildNodes E s executors = Inr (ns, s') \<Longrightarrow> length ns = length executors"
  by (induction executors arbitrary: s ns) (auto split: sum.splits)

lemma buildNodes_fresh:
  "buildNodes E s executors = Inr (ns, s') \<Longrightarrow>
   \<exists>k. nodeIDs ns = freshIDs s k \<and> PlanColumnID s' = PlanColumnID s + int k"
proof (induction executors arbitrary: s ns)
  case Nil
  then show ?case by (auto simp: nodeIDs_def freshIDs_def intro: exI [of _ 0])
next
  case (Cons e executors)
  from Cons.prems obtain p s1 ms where b: "pbToPhysicalPlan E s e = Inr (p, s1)"
    and r: "buildNodes E s1 executors = Inr (ms, s')" and ns: "ns = node p # ms"
    by (auto split: sum.splits)
  from pbToPhysicalPlan_fresh [OF b] obtain a where
    a: "map UniqueID (nodeSchema (node p)) = freshIDs s a" "PlanColumnID s1 = PlanColumnID s + int a"
    by blast
  from Cons.IH [OF r] obtain k where
    k: "nodeIDs ms = freshIDs s1 k" "PlanColumnID s' = PlanColumnID s1 + int k"
    by blast
  have "nodeIDs ns = freshIDs s (a + k)"
    using ns a k freshIDs_append [OF a(2), of k] by (simp add: nodeIDs_def)
  moreover have "PlanColumnID s' = PlanColumnID s + int (a + k)" using a k by simp
  ultimately show ?case by blast
qed

lemma buildNodes_first_error:
  "i < length executors \<Longrightarrow> buildNodes E s (take i executors) = Inr (ns, si) \<Longrightarrow>
   pbToPhysicalPlan E si (executors ! i) = Inl err \<Longrightarrow> buildNodes E s executors = Inl err"
proof (induction executors arbitrary: i s ns)
  case Nil
  then show ?case by simp
next
  case (Cons e executors)
  show ?case
  proof (cases i)
    case 0
    with Cons.prems show ?thesis by simp
  next
    case (Suc j)
    with Cons.prems obtain p s1 ms where b: "pbToPhysicalPlan E s e = Inr (p, s1)"
      and r: "buildNodes E s1 (take j executors) = Inr (ms, si)"
      by (auto split: sum.splits)
    from Cons.prems Suc have "j < length executors" "pbToPhysicalPlan E si (executors ! j) = Inl err"
      by simp_all
    from Cons.IH [OF this(1) r this(2)] b show ?thesis by simp
  qed
qed

lemma buildNodes_nth:
  "buildNodes E s executors = Inr (ns, s') \<Longrightarrow> i < length executors \<Longrightarrow>
   \<exists>si si'. buildNodes E s (take i executors) = Inr (take i ns, si)
      \<and> pbToPhysicalPlan E si (executors ! i) = Inr (Plan (ns ! i) [], si')"
proof (induction executors arbitrary: i s ns)
  case Nil
  then show ?case by simp
next
  case (Cons e executors)
  from Cons.prems obtain p s1 ms where b: "pbToPhysicalPlan E s e = Inr (p, s1)"
    and r: "buildNodes E s1 executors = Inr (ms, s')" and ns: "ns = node p # ms"
    by (auto split: sum.splits)
  from b have p: "p = Plan (node p) []"
    using pbToPhysicalPlan_fresh Plan_node_Children by blast
  show ?case
  proof (cases i)
    case 0
    with b p ns show ?thesis by simp
  next
    case (Suc j)
    with Cons.prems have "j < length executors" by simp
    from Cons.IH [OF r this] obtain si si' where
      "buildNodes E s1 (take j executors) = Inr (take j ms, si)"
      "pbToPhysicalPlan E si (executors ! j) = Inr (Plan (ms ! j) [], si')"
      by blast
    with b ns Suc show ?thesis by simp
  qed
qed

text \<open>
  C5. When every builder succeeds on a list of \<open>N\<close> descriptors, the loop of
  \<^verbatim>\<open>Build\<close> returns the plan that stacks the \<open>N\<close> built nodes in wire order: the
  plan is linear, its nodes from the deepest up are the nodes the builders
  returned for the descriptors from the first on, and it has \<open>N\<close> nodes (no plan
  for the empty list). When the builder of descriptor \<open>i\<close> fails after the
  builders before it succeeded, the loop and \<^verbatim>\<open>Build\<close> return that error.
\<close>

theorem Build_assembles_chain:
  "(\<forall>ns s'. buildNodes E s executors = Inr (ns, s') \<longrightarrow>
       length ns = length executors
     \<and> buildChain E s None executors = Inr (link None ns, s')
     \<and> (case link None ns of
          None \<Rightarrow> executors = []
        | Some p \<Rightarrow> linear p \<and> chainNodes p = ns \<and> planSize p = length executors)
     \<and> (\<forall>i < length executors. \<exists>si si'.
           buildNodes E s (take i executors) = Inr (take i ns, si)
         \<and> pbToPhysicalPlan E si (executors ! i) = Inr (Plan (ns ! i) [], si')))
   \<and> (\<forall>i ns si err.
         i < length executors \<and> buildNodes E s (take i executors) = Inr (ns, si)
         \<and> pbToPhysicalPlan E si (executors ! i) = Inl err \<longrightarrow>
         buildChain E s None executors = Inl err \<and> Build E s executors = Inl err)"
proof (intro conjI allI impI)
  fix ns s'
  assume b: "buildNodes E s executors = Inr (ns, s')"
  show len: "length ns = length executors" by (rule buildNodes_length [OF b])
  show "buildChain E s None executors = Inr (link None ns, s')"
    using b by (simp add: buildChain_buildNodes)
  show "case link None ns of
          None \<Rightarrow> executors = []
        | Some p \<Rightarrow> linear p \<and> chainNodes p = ns \<and> planSize p = length executors"
  proof (cases "ns = []")
    case True
    with len show ?thesis by simp
  next
    case False
    from link_None_Some [OF this] len show ?thesis by auto
  qed
next
  fix ns s' i
  assume "buildNodes E s executors = Inr (ns, s')" "i < length executors"
  then show "\<exists>si si'. buildNodes E s (take i executors) = Inr (take i ns, si)
         \<and> pbToPhysicalPlan E si (executors ! i) = Inr (Plan (ns ! i) [], si')"
    by (rule buildNodes_nth)
next
  fix i ns si err
  assume a: "i < length executors \<and> buildNodes E s (take i executors) = Inr (ns, si)
         \<and> pbToPhysicalPlan E si (executors ! i) = Inl err"
  then have "buildNodes E s executors = Inl err"
    using buildNodes_first_error by blast
  then show c: "buildChain E s None executors = Inl err"
    by (simp add: buildChain_buildNodes)
  show "Build E s executors = Inl err"
    using a buildNodes_first_error [of i executors E s ns si err]
    by (simp add: Build_def buildChain_buildNodes)
qed

theorem Build_assembles_chain_witness:
  "buildChain fxEnv fxState None
       [fxScan 1 [1, 2, 3], fxSelectionExec [PBExpr 2 [0] [], PBExpr 2 [2] []], fxLimitExec 10]
     = Inr (Some (Plan (PhysicalLimit 10)
                    [Plan (PhysicalSelection [fxTimePred 0, fxPred ''gt'' 0 2 8 0]) [fxScanPlan []]]),
            \<lparr>tps = [FieldType 12, FieldType 15, FieldType 8], PlanColumnID = 103\<rparr>)
   \<and> linear (Plan (PhysicalLimit 10)
                    [Plan (PhysicalSelection [fxTimePred 0, fxPred ''gt'' 0 2 8 0]) [fxScanPlan []]])
   \<and> chainNodes (Plan (PhysicalLimit 10)
                    [Plan (PhysicalSelection [fxTimePred 0, fxPred ''gt'' 0 2 8 0]) [fxScanPlan []]])
     = [MemTable (fxMemTable (Some fxX0)), PhysicalSelection [fxTimePred 0, fxPred ''gt'' 0 2 8 0], PhysicalLimit 10]
   \<and> planSize (Plan (PhysicalLimit 10)
                    [Plan (PhysicalSelection [fxTimePred 0, fxPred ''gt'' 0 2 8 0]) [fxScanPlan []]])
     = 3
   \<and> Build fxEnv fxState [fxScan 1 [1, 2, 3], fxExecutor (TypeOther 7), fxExecutor TypeLimit]
     = Inl (ErrUnsupportedExecType (TypeOther 7))"
proof -
  let ?es = "[fxScan 1 [1, 2, 3], fxSelectionExec [PBExpr 2 [0] [], PBExpr 2 [2] []], fxLimitExec 10]"
  let ?ns = "[MemTable (fxMemTable (Some fxX0)), PhysicalSelection [fxTimePred 0, fxPred ''gt'' 0 2 8 0],
              PhysicalLimit 10] :: FxExtractor PlanNode list"
  let ?s3 = "\<lparr>tps = [FieldType 12, FieldType 15, FieldType 8], PlanColumnID = 103\<rparr>"
  let ?P = "Plan (PhysicalLimit 10)
                    [Plan (PhysicalSelection [fxTimePred 0, fxPred ''gt'' 0 2 8 0]) [fxScanPlan []]]"
  let ?bad = "[fxScan 1 [1, 2, 3], fxExecutor (TypeOther 7), fxExecutor TypeLimit]"
  have bn: "buildNodes fxEnv fxState ?es = Inr (?ns, ?s3)" by code_simp
  have lk: "link None ?ns = Some ?P" by code_simp
  have len: "length ?es = 3" by simp
  have i: "(1::nat) < length ?bad" by simp
  have pre: "buildNodes fxEnv fxState (take 1 ?bad) = Inr ([MemTable (fxMemTable (Some fxX0))], ?s3)"
    by code_simp
  have err: "pbToPhysicalPlan fxEnv ?s3 (?bad ! 1) = Inl (ErrUnsupportedExecType (TypeOther 7))"
    by code_simp
  note good = Build_assembles_chain [of fxEnv fxState ?es]
  note bad = Build_assembles_chain [of fxEnv fxState ?bad]
  from good bn have "buildChain fxEnv fxState None ?es = Inr (link None ?ns, ?s3)
     \<and> (case link None ?ns of
          None \<Rightarrow> ?es = []
        | Some p \<Rightarrow> linear p \<and> chainNodes p = ?ns \<and> planSize p = length ?es)"
    by blast
  then have 1: "buildChain fxEnv fxState None ?es = Inr (Some ?P, ?s3)
     \<and> linear ?P \<and> chainNodes ?P = ?ns \<and> planSize ?P = 3"
    unfolding lk len by simp
  from bad i pre err have 2: "Build fxEnv fxState ?bad = Inl (ErrUnsupportedExecType (TypeOther 7))"
    by blast
  from 1 2 show ?thesis by blast
qed

subsection \<open>Predicate push-down\<close>

lemma predicatePushDownNode_default:
  "\<not> isSelection n \<Longrightarrow> \<not> isMemTable n \<Longrightarrow>
   predicatePushDownNode E (Plan n cs) predicates =
     (case cs of
        [] \<Rightarrow> Inr (predicates, Plan n [])
      | c # cs' \<Rightarrow>
          (case predicatePushDownNode E c [] of
             Inl err \<Rightarrow> Inl err
           | Inr (residual, child) \<Rightarrow> Inr (predicates, Plan n [child])))"
  by (cases n; cases cs) (simp_all split: sum.splits)

lemma node_cases:
  obtains (MemTable) memTable where "n = MemTable memTable"
  | (Selection) conds where "n = PhysicalSelection conds"
  | (Other) "\<not> isSelection n" "\<not> isMemTable n"
  by (cases n) simp_all

lemma extractColumns_setUniqueID:
  "extractColumns (setUniqueID schemaCols e) = map (rebound schemaCols) (extractColumns e)"
proof (induction e)
  case (ColumnExpr c)
  then show ?case by (simp add: rebound_def)
next
  case (Constant d)
  then show ?case by simp
next
  case (ScalarFunction f args)
  then show ?case by (induction args) (simp_all add: map_concat)
qed

lemma ExtractColumnsFromExpressions_setUniqueID:
  "ExtractColumnsFromExpressions (map (setUniqueID schemaCols) predicates)
     = map (rebound schemaCols) (ExtractColumnsFromExpressions predicates)"
  by (induction predicates)
     (simp_all add: ExtractColumnsFromExpressions_def extractColumns_setUniqueID)

lemma rebindColumns_in_range:
  "list_all (inRange schemaCols) (ExtractColumnsFromExpressions predicates) \<Longrightarrow>
   rebindColumns schemaCols predicates = Inr (map (setUniqueID schemaCols) predicates)"
  by (simp add: rebindColumns_def find_None_iff list_all_iff split: option.splits)

lemma rebindColumns_out_of_range:
  "\<not> list_all (inRange schemaCols) (ExtractColumnsFromExpressions predicates) \<Longrightarrow>
   \<exists>c. find (\<lambda>c. \<not> inRange schemaCols c) (ExtractColumnsFromExpressions predicates) = Some c
     \<and> rebindColumns schemaCols predicates = Inl (PanicIndexOutOfRange (Index c) (length schemaCols))"
  by (cases "find (\<lambda>c. \<not> inRange schemaCols c) (ExtractColumnsFromExpressions predicates)")
     (auto simp: rebindColumns_def find_None_iff list_all_iff)

text \<open>
  C10. At a memory table with an extractor the pass indexes the schema by the
  position stored in each column reference of the incoming predicates, with no
  test of the bounds. When every position is a position of the schema, the
  pass succeeds and each column reference has received the identifier of the
  schema column at its position. When some position is not (it is at least
  the length of the schema, or negative), the access is out of range: the
  result is the panic for the first such column, and no plan.
\<close>

theorem rebind_indexes_schema_unchecked:
  assumes "Extractor memTable = Some extractor"
  shows "(list_all (inRange (schema memTable)) (ExtractColumnsFromExpressions predicates) \<longrightarrow>
            predicatePushDownNode E (Plan (MemTable memTable) cs) predicates =
              Inr (fst (Extract E extractor (schema memTable) (fieldNames memTable)
                          (map (setUniqueID (schema memTable)) predicates)),
                   Plan (MemTable (memTable\<lparr>Extractor :=
                      Some (snd (Extract E extractor (schema memTable) (fieldNames memTable)
                                   (map (setUniqueID (schema memTable)) predicates)))\<rparr>)) cs)
          \<and> ExtractColumnsFromExpressions (map (setUniqueID (schema memTable)) predicates)
              = map (\<lambda>c. c\<lparr>UniqueID := UniqueID (schema memTable ! nat (Index c))\<rparr>)
                    (ExtractColumnsFromExpressions predicates))
       \<and> (\<not> list_all (inRange (schema memTable)) (ExtractColumnsFromExpressions predicates) \<longrightarrow>
            (\<exists>c. find (\<lambda>c. \<not> inRange (schema memTable) c) (ExtractColumnsFromExpressions predicates) = Some c
               \<and> predicatePushDownNode E (Plan (MemTable memTable) cs) predicates
                   = Inl (PanicIndexOutOfRange (Index c) (length (schema memTable)))))
       \<and> (\<forall>c. inRange (schema memTable) c \<longleftrightarrow> 0 \<le> Index c \<and> Index c < int (length (schema memTable)))"
proof (intro conjI impI allI)
  assume ok: "list_all (inRange (schema memTable)) (ExtractColumnsFromExpressions predicates)"
  show "predicatePushDownNode E (Plan (MemTable memTable) cs) predicates =
              Inr (fst (Extract E extractor (schema memTable) (fieldNames memTable)
                          (map (setUniqueID (schema memTable)) predicates)),
                   Plan (MemTable (memTable\<lparr>Extractor :=
                      Some (snd (Extract E extractor (schema memTable) (fieldNames memTable)
                                   (map (setUniqueID (schema memTable)) predicates)))\<rparr>)) cs)"
    using assms rebindColumns_in_range [OF ok] by (simp add: split_beta)
  show "ExtractColumnsFromExpressions (map (setUniqueID (schema memTable)) predicates)
              = map (\<lambda>c. c\<lparr>UniqueID := UniqueID (schema memTable ! nat (Index c))\<rparr>)
                    (ExtractColumnsFromExpressions predicates)"
    using ExtractColumnsFromExpressions_setUniqueID [of "schema memTable" predicates]
    by (simp add: rebound_def [abs_def])
next
  assume "\<not> list_all (inRange (schema memTable)) (ExtractColumnsFromExpressions predicates)"
  from rebindColumns_out_of_range [OF this] assms
  show "\<exists>c. find (\<lambda>c. \<not> inRange (schema memTable) c) (ExtractColumnsFromExpressions predicates) = Some c
               \<and> predicatePushDownNode E (Plan (MemTable memTable) cs) predicates
                   = Inl (PanicIndexOutOfRange (Index c) (length (schema memTable)))"
    by auto
next
  fix c show "inRange (schema memTable) c \<longleftrightarrow> 0 \<le> Index c \<and> Index c < int (length (schema memTable))"
    by (simp add: inRange_def)
qed

text \<open>
  C4. A selection node hands its own conditions to its child. When the child
  returns predicates, the selection stays, with exactly these as its
  conditions and the rewritten child as its only child; when the child returns
  none, the rewritten child takes the place of the selection. Either way the
  incoming predicates of the selection are returned unchanged.
\<close>

theorem selection_keeps_residual_or_is_elided:
  assumes "predicatePushDownNode E c conds = Inr (residual, child)"
  shows "(residual \<noteq> [] \<longrightarrow>
            predicatePushDownNode E (Plan (PhysicalSelection conds) (c # cs)) predicates
              = Inr (predicates, Plan (PhysicalSelection residual) [child]))
       \<and> (residual = [] \<longrightarrow>
            predicatePushDownNode E (Plan (PhysicalSelection conds) (c # cs)) predicates
              = Inr (predicates, child))"
  using assms by simp

lemma predicatePushDownNode_residual:
  assumes "predicatePushDownNode E p predicates = Inr (remained, p')"
  shows "remained = predicates \<or>
    (\<exists>memTable cs extractor predicates' extractor'.
       p = Plan (MemTable memTable) cs \<and> Extractor memTable = Some extractor
     \<and> rebindColumns (schema memTable) predicates = Inr predicates'
     \<and> Extract E extractor (schema memTable) (fieldNames memTable) predicates' = (remained, extractor')
     \<and> p' = Plan (MemTable (memTable\<lparr>Extractor := Some extractor'\<rparr>)) cs)"
proof (cases p)
  case (Plan n cs)
  show ?thesis
  proof (cases n rule: node_cases)
    case (MemTable memTable)
    with Plan assms show ?thesis
      by (auto split: option.splits sum.splits prod.splits)
  next
    case (Selection conds)
    with Plan assms show ?thesis
      by (cases cs) (auto split: sum.splits prod.splits if_splits)
  next
    case Other
    with Plan assms show ?thesis
      by (auto simp: predicatePushDownNode_default split: list.splits sum.splits prod.splits)
  qed
qed

lemma linear_cases:
  assumes "linear (Plan n cs)"
  obtains "cs = []" | c where "cs = [c]" "linear c"
  using assms by (cases cs rule: list.exhaust [case_names Nil Cons]; cases "tl cs") auto

lemma pushdown_preserves:
  "linear p \<Longrightarrow> predicatePushDownNode E p predicates = Inr (remained, p') \<Longrightarrow>
   linear p' \<and> planUniqueIDs p' = planUniqueIDs p"
proof (induction p arbitrary: predicates remained p')
  case (Plan n cs)
  from Plan.prems(1) show ?case
  proof (cases rule: linear_cases)
    case 1
    show ?thesis
    proof (cases n rule: node_cases)
      case (MemTable memTable)
      with 1 Plan.prems show ?thesis
        by (auto split: option.splits sum.splits prod.splits)
    next
      case (Selection conds)
      with 1 Plan.prems show ?thesis by simp
    next
      case Other
      with 1 Plan.prems show ?thesis
        by (cases n) (auto simp: predicatePushDownNode_default)
    qed
  next
    case (2 c)
    show ?thesis
    proof (cases n rule: node_cases)
      case (MemTable memTable)
      with 2 Plan.prems show ?thesis
        by (auto split: option.splits sum.splits prod.splits)
    next
      case (Selection conds)
      with 2 Plan.prems obtain conditions child where
        r: "predicatePushDownNode E c conds = Inr (conditions, child)"
        and p': "p' = (if length conditions > 0 then Plan (PhysicalSelection conditions) [child] else child)"
        by (auto split: sum.splits prod.splits if_splits)
      from Plan.IH [OF _ 2(2) r] 2(1) have "linear child \<and> planUniqueIDs child = planUniqueIDs c" by simp
      with p' 2 Selection show ?thesis by simp
    next
      case Other
      with 2 Plan.prems obtain residual child where
        r: "predicatePushDownNode E c [] = Inr (residual, child)"
        and p': "p' = Plan n [child]"
        by (auto simp: predicatePushDownNode_default split: sum.splits prod.splits)
      from Plan.IH [OF _ 2(2) r] 2(1) have "linear child \<and> planUniqueIDs child = planUniqueIDs c" by simp
      with p' 2 show ?thesis by simp
    qed
  qed
qed

text \<open>
  C3. On a linear plan the pass discards no predicate. A condition \<open>c\<close> of a
  selection node of the plan is a condition of a selection node of the
  rewritten plan, or it is consumed by the extractor of the scan: \<open>c\<close> stands in
  a selection directly above a memory table with an extractor, the conditions
  of that selection, \<open>c\<close> among them, are bound to the schema and handed to
  \<^verbatim>\<open>Extract\<close>, every predicate that \<^verbatim>\<open>Extract\<close> returns is a condition of a
  selection node of the rewritten plan, and the rewritten plan holds that
  memory table with the state in which \<^verbatim>\<open>Extract\<close> left the extractor. So a
  predicate leaves the plan only by being handed to \<^verbatim>\<open>Extract\<close> and not
  returned by it, and the extractor that took it is the one of the rewritten
  plan.
\<close>

theorem pushdown_never_discards:
  assumes "linear p"
    and "predicatePushDownNode E p predicates = Inr (remained, p')"
    and "c \<in> set (selConds p)"
  shows "c \<in> set (selConds p') \<or>
    (\<exists>conds memTable cs extractor conds' residual extractor'.
        Plan (PhysicalSelection conds) [Plan (MemTable memTable) cs] \<in> set (subplans p)
      \<and> c \<in> set conds
      \<and> Extractor memTable = Some extractor
      \<and> rebindColumns (schema memTable) conds = Inr conds'
      \<and> setUniqueID (schema memTable) c \<in> set conds'
      \<and> Extract E extractor (schema memTable) (fieldNames memTable) conds' = (residual, extractor')
      \<and> set residual \<subseteq> set (selConds p')
      \<and> Plan (MemTable (memTable\<lparr>Extractor := Some extractor'\<rparr>)) cs \<in> set (subplans p'))"
  using assms
proof (induction p arbitrary: predicates remained p')
  case (Plan n cs)
  from Plan.prems(1) show ?case
  proof (cases rule: linear_cases)
    case 1
    show ?thesis
    proof (cases n rule: node_cases)
      case (MemTable memTable)
      with 1 Plan.prems show ?thesis by simp
    next
      case (Selection conds)
      with 1 Plan.prems show ?thesis by simp
    next
      case Other
      with 1 Plan.prems show ?thesis
        by (cases n) (auto simp: predicatePushDownNode_default)
    qed
  next
    case (2 ch)
    show ?thesis
    proof (cases n rule: node_cases)
      case (MemTable memTable)
      with 2 Plan.prems have "selConds p' = selConds (Plan n cs)"
        by (auto split: option.splits sum.splits prod.splits)
      with Plan.prems show ?thesis by simp
    next
      case (Selection conds)
      with 2 Plan.prems obtain conditions child where
        r: "predicatePushDownNode E ch conds = Inr (conditions, child)"
        and p': "p' = (if length conditions > 0 then Plan (PhysicalSelection conditions) [child] else child)"
        by (auto split: sum.splits prod.splits if_splits)
      have sub: "set (selConds child) \<subseteq> set (selConds p')" using p' by auto
      have subp: "set (subplans child) \<subseteq> set (subplans p')" using p' by auto
      have res: "set conditions \<subseteq> set (selConds p')" using p' by auto
      from Plan.prems(3) 2 Selection consider "c \<in> set conds" | "c \<in> set (selConds ch)" by auto
      then show ?thesis
      proof cases
        case 1
        from predicatePushDownNode_residual [OF r] show ?thesis
        proof
          assume "conditions = conds"
          with 1 res show ?thesis by auto
        next
          assume "\<exists>memTable cs extractor predicates' extractor'.
             ch = Plan (MemTable memTable) cs \<and> Extractor memTable = Some extractor
           \<and> rebindColumns (schema memTable) conds = Inr predicates'
           \<and> Extract E extractor (schema memTable) (fieldNames memTable) predicates' = (conditions, extractor')
           \<and> child = Plan (MemTable (memTable\<lparr>Extractor := Some extractor'\<rparr>)) cs"
          then obtain memTable cs' extractor predicates' extractor' where
            ch: "ch = Plan (MemTable memTable) cs'" and x: "Extractor memTable = Some extractor"
            and rb: "rebindColumns (schema memTable) conds = Inr predicates'"
            and ex: "Extract E extractor (schema memTable) (fieldNames memTable) predicates' = (conditions, extractor')"
            and child: "child = Plan (MemTable (memTable\<lparr>Extractor := Some extractor'\<rparr>)) cs'"
            by blast
          have "child \<in> set (subplans child)" by (cases child) simp
          with subp child
          have kept: "Plan (MemTable (memTable\<lparr>Extractor := Some extractor'\<rparr>)) cs' \<in> set (subplans p')"
            by auto
          have "Plan (PhysicalSelection conds) [Plan (MemTable memTable) cs'] \<in> set (subplans (Plan n cs))"
            using 2 Selection ch by simp
          moreover from rb have "predicates' = map (setUniqueID (schema memTable)) conds"
            by (auto simp: rebindColumns_def split: option.splits)
          with 1 have "setUniqueID (schema memTable) c \<in> set predicates'" by simp
          ultimately show ?thesis using 1 x rb ex res kept by blast
        qed
      next
        case 2
        from Plan.IH [OF _ \<open>linear ch\<close> r 2] \<open>cs = [ch]\<close>
        have "c \<in> set (selConds child) \<or>
          (\<exists>conds memTable cs extractor conds' residual extractor'.
              Plan (PhysicalSelection conds) [Plan (MemTable memTable) cs] \<in> set (subplans ch)
            \<and> c \<in> set conds
            \<and> Extractor memTable = Some extractor
            \<and> rebindColumns (schema memTable) conds = Inr conds'
            \<and> setUniqueID (schema memTable) c \<in> set conds'
            \<and> Extract E extractor (schema memTable) (fieldNames memTable) conds' = (residual, extractor')
            \<and> set residual \<subseteq> set (selConds child)
            \<and> Plan (MemTable (memTable\<lparr>Extractor := Some extractor'\<rparr>)) cs \<in> set (subplans child))"
          by simp
        moreover have "set (subplans ch) \<subseteq> set (subplans (Plan n cs))" using \<open>cs = [ch]\<close> by auto
        ultimately show ?thesis using sub subp by blast
      qed
    next
      case Other
      with 2 Plan.prems obtain residual child where
        r: "predicatePushDownNode E ch [] = Inr (residual, child)"
        and p': "p' = Plan n [child]"
        by (auto simp: predicatePushDownNode_default split: sum.splits prod.splits)
      have sub: "set (selConds child) \<subseteq> set (selConds p')" using p' by auto
      have subp: "set (subplans child) \<subseteq> set (subplans p')" using p' by auto
      from Plan.prems(3) 2 Other have c: "c \<in> set (selConds ch)" by (cases n) auto
      from Plan.IH [OF _ \<open>linear ch\<close> r c] \<open>cs = [ch]\<close>
      have "c \<in> set (selConds child) \<or>
          (\<exists>conds memTable cs extractor conds' residual extractor'.
              Plan (PhysicalSelection conds) [Plan (MemTable memTable) cs] \<in> set (subplans ch)
            \<and> c \<in> set conds
            \<and> Extractor memTable = Some extractor
            \<and> rebindColumns (schema memTable) conds = Inr conds'
            \<and> setUniqueID (schema memTable) c \<in> set conds'
            \<and> Extract E extractor (schema memTable) (fieldNames memTable) conds' = (residual, extractor')
            \<and> set residual \<subseteq> set (selConds child)
            \<and> Plan (MemTable (memTable\<lparr>Extractor := Some extractor'\<rparr>)) cs \<in> set (subplans child))"
        by simp
      moreover have "set (subplans ch) \<subseteq> set (subplans (Plan n cs))" using \<open>cs = [ch]\<close> by auto
      ultimately show ?thesis using sub subp by blast
    qed
  qed
qed

lemma rebound_idem: "rebound sc (rebound sc c) = rebound sc c"
  by (simp add: rebound_def)

lemma inRange_rebound: "inRange sc (rebound sc c) = inRange sc c"
  by (simp add: rebound_def inRange_def)

lemma setUniqueID_idem: "setUniqueID sc (setUniqueID sc e) = setUniqueID sc e"
proof (induction e)
  case (ColumnExpr c)
  then show ?case by simp
next
  case (Constant d)
  then show ?case by simp
next
  case (ScalarFunction f args)
  then show ?case by (induction args) simp_all
qed

lemma rebindColumns_Inr:
  "rebindColumns sc predicates = Inr predicates' \<Longrightarrow>
   predicates' = map (setUniqueID sc) predicates
   \<and> list_all (inRange sc) (ExtractColumnsFromExpressions predicates)"
  by (auto simp: rebindColumns_def find_None_iff list_all_iff split: option.splits)

lemma rebindColumns_idem:
  assumes "rebindColumns sc predicates = Inr predicates'"
  shows "rebindColumns sc predicates' = Inr predicates'"
proof -
  from rebindColumns_Inr [OF assms] have p: "predicates' = map (setUniqueID sc) predicates"
    and ok: "list_all (inRange sc) (ExtractColumnsFromExpressions predicates)"
    by simp_all
  have "list_all (inRange sc) (ExtractColumnsFromExpressions predicates')"
    using ok unfolding p ExtractColumnsFromExpressions_setUniqueID
    by (simp add: list_all_iff inRange_rebound)
  from rebindColumns_in_range [OF this] show ?thesis
    by (simp add: p setUniqueID_idem comp_def)
qed

lemma rebound_fixed: "rebound sc c = c \<longleftrightarrow> UniqueID c = UniqueID (sc ! nat (Index c))"
  by (cases c) (auto simp: rebound_def)

lemma setUniqueID_fixed:
  "setUniqueID sc e = e \<longleftrightarrow> (\<forall>c \<in> set (extractColumns e). rebound sc c = c)"
proof (induction e)
  case (ColumnExpr c)
  then show ?case by (simp add: rebound_def)
next
  case (Constant d)
  then show ?case by simp
next
  case (ScalarFunction f args)
  have "map (setUniqueID sc) args = args \<longleftrightarrow> (\<forall>a \<in> set args. setUniqueID sc a = a)"
    by (induction args) auto
  with ScalarFunction show ?case by auto
qed

lemma boundToSchema_iff:
  "boundToSchema sc predicates \<longleftrightarrow>
     (\<forall>c \<in> set (ExtractColumnsFromExpressions predicates).
        0 \<le> Index c \<and> Index c < int (length sc) \<and> UniqueID c = UniqueID (sc ! nat (Index c)))"
proof -
  have m: "map (setUniqueID sc) predicates = predicates
      \<longleftrightarrow> (\<forall>c \<in> set (ExtractColumnsFromExpressions predicates). rebound sc c = c)"
    by (induction predicates)
       (auto simp: ExtractColumnsFromExpressions_def setUniqueID_fixed)
  show ?thesis
  proof (cases "list_all (inRange sc) (ExtractColumnsFromExpressions predicates)")
    case True
    from rebindColumns_in_range [OF True] m True show ?thesis
      by (auto simp: boundToSchema_def list_all_iff inRange_def rebound_fixed)
  next
    case False
    from rebindColumns_out_of_range [OF False] False show ?thesis
      by (auto simp: boundToSchema_def list_all_iff inRange_def)
  qed
qed

lemma pushdown_empty_residual:
  assumes "stableExtract E" "predicatePushDownNode E p [] = Inr (remained, p')"
  shows "remained = []"
proof -
  from predicatePushDownNode_residual [OF assms(2)] show ?thesis
  proof
    assume "remained = []"
    then show ?thesis .
  next
    assume "\<exists>memTable cs extractor predicates' extractor'.
       p = Plan (MemTable memTable) cs \<and> Extractor memTable = Some extractor
     \<and> rebindColumns (schema memTable) [] = Inr predicates'
     \<and> Extract E extractor (schema memTable) (fieldNames memTable) predicates' = (remained, extractor')
     \<and> p' = Plan (MemTable (memTable\<lparr>Extractor := Some extractor'\<rparr>)) cs"
    then obtain memTable cs extractor predicates' extractor' where
      "p = Plan (MemTable memTable) cs"
      and rb: "rebindColumns (schema memTable) [] = Inr predicates'"
      and ex: "Extract E extractor (schema memTable) (fieldNames memTable) predicates' = (remained, extractor')"
      by blast
    from rb have "predicates' = []"
      by (simp add: rebindColumns_def ExtractColumnsFromExpressions_def)
    with ex have "fst (Extract E extractor (schema memTable) (fieldNames memTable) []) = remained"
      by simp
    moreover from assms(1)
    have "fst (Extract E extractor (schema memTable) (fieldNames memTable) []) = []"
      unfolding stableExtract_def by blast
    ultimately show ?thesis by simp
  qed
qed

lemma noSelectionUnderSelection_child:
  "noSelectionUnderSelection (Plan n (c # cs)) \<Longrightarrow> \<not> isMemTable n \<Longrightarrow>
   (isSelection n \<longrightarrow> \<not> isSelection (node c)) \<and> noSelectionUnderSelection c"
  by (cases n) simp_all

lemma fieldNames_Extractor [simp]:
  "fieldNames (memTable\<lparr>Extractor := x\<rparr>) = fieldNames memTable"
  by (simp add: fieldNames_def)

lemma pushdown_fixed_MemTable:
  assumes st: "stableExtract E"
    and r: "predicatePushDownNode E (Plan (MemTable memTable) cs) predicates = Inr (remained, p')"
  shows "predicatePushDownNode E p' remained = Inr (remained, p')"
proof (cases "Extractor memTable")
  case None
  with r have "remained = predicates" "p' = Plan (MemTable memTable) cs" by simp_all
  with None show ?thesis by simp
next
  case (Some extractor)
  from r Some obtain predicates' where
    rb: "rebindColumns (schema memTable) predicates = Inr predicates'"
    by (cases "rebindColumns (schema memTable) predicates") simp_all
  obtain rem extractor' where
    ex: "Extract E extractor (schema memTable) (fieldNames memTable) predicates' = (rem, extractor')"
    by (cases "Extract E extractor (schema memTable) (fieldNames memTable) predicates'")
  from r Some rb ex have rem: "rem = remained"
    and p': "p' = Plan (MemTable (memTable\<lparr>Extractor := Some extractor'\<rparr>)) cs"
    by simp_all
  have idem: "rebindColumns (schema memTable) predicates' = Inr predicates'"
    by (rule rebindColumns_idem [OF rb])
  from st have "rebindColumns (schema memTable) predicates' = Inr predicates'
            \<and> Extract E extractor (schema memTable) (fieldNames memTable) predicates' = (rem, extractor') \<longrightarrow>
            rebindColumns (schema memTable) rem = Inr rem
            \<and> Extract E extractor' (schema memTable) (fieldNames memTable) rem = (rem, extractor')"
    unfolding stableExtract_def boundToSchema_def by (elim conjE allE)
  with idem ex have "rebindColumns (schema memTable) rem = Inr rem"
    "Extract E extractor' (schema memTable) (fieldNames memTable) rem = (rem, extractor')"
    by simp_all
  then show ?thesis unfolding p' rem [symmetric] by simp
qed

lemma pushdown_fixed_Selection:
  assumes r: "predicatePushDownNode E (Plan (PhysicalSelection conds) cs) [] = Inr (remained, p')"
    and ih: "\<And>c cs' conditions child. cs = c # cs' \<Longrightarrow>
       predicatePushDownNode E c conds = Inr (conditions, child) \<Longrightarrow>
       predicatePushDownNode E child conditions = Inr (conditions, child)"
  shows "predicatePushDownNode E p' remained = Inr (remained, p')"
proof (cases cs)
  case Nil
  with r show ?thesis by simp
next
  case (Cons c cs')
  from r Cons obtain conditions child where
    rc: "predicatePushDownNode E c conds = Inr (conditions, child)"
    by (cases "predicatePushDownNode E c conds") auto
  from ih [OF Cons rc] have fx: "predicatePushDownNode E child conditions = Inr (conditions, child)" .
  show ?thesis
  proof (cases "conditions = []")
    case True
    with r Cons rc have "remained = []" "p' = child" by simp_all
    with fx True show ?thesis by simp
  next
    case False
    with r Cons rc have "remained = []" "p' = Plan (PhysicalSelection conditions) [child]" by simp_all
    with fx False show ?thesis by simp
  qed
qed

lemma pushdown_fixed_Other:
  assumes st: "stableExtract E"
    and n: "\<not> isSelection n" "\<not> isMemTable n"
    and r: "predicatePushDownNode E (Plan n cs) predicates = Inr (remained, p')"
    and ih: "\<And>c cs' residual child. cs = c # cs' \<Longrightarrow>
       predicatePushDownNode E c [] = Inr (residual, child) \<Longrightarrow>
       predicatePushDownNode E child residual = Inr (residual, child)"
  shows "predicatePushDownNode E p' remained = Inr (remained, p')"
proof (cases cs)
  case Nil
  with r n have "remained = predicates" "p' = Plan n []"
    by (simp_all add: predicatePushDownNode_default)
  with n show ?thesis by (simp add: predicatePushDownNode_default)
next
  case (Cons c cs')
  from r n Cons obtain residual child where
    rc: "predicatePushDownNode E c [] = Inr (residual, child)"
    by (cases "predicatePushDownNode E c []") (auto simp: predicatePushDownNode_default)
  from r n Cons rc have rem: "remained = predicates" and p': "p' = Plan n [child]"
    by (simp_all add: predicatePushDownNode_default)
  from pushdown_empty_residual [OF st rc] have re: "residual = []" .
  from ih [OF Cons rc] re have "predicatePushDownNode E child [] = Inr ([], child)" by simp
  with n show ?thesis unfolding p' rem by (simp add: predicatePushDownNode_default)
qed

lemma pushdown_fixed:
  "stableExtract E \<Longrightarrow> noSelectionUnderSelection p \<Longrightarrow>
   (isSelection (node p) \<longrightarrow> predicates = []) \<Longrightarrow>
   predicatePushDownNode E p predicates = Inr (remained, p') \<Longrightarrow>
   predicatePushDownNode E p' remained = Inr (remained, p')"
proof (induction p arbitrary: predicates remained p')
  case (Plan n cs)
  note st = Plan.prems(1)
  show ?case
  proof (cases n rule: node_cases)
    case (MemTable memTable)
    from Plan.prems(4) show ?thesis
      unfolding MemTable by (rule pushdown_fixed_MemTable [OF st])
  next
    case (Selection conds)
    from Plan.prems(3) have pe: "predicates = []" unfolding Selection by simp
    have ih: "predicatePushDownNode E child conditions = Inr (conditions, child)"
      if cs: "cs = c # cs'" and rc: "predicatePushDownNode E c conds = Inr (conditions, child)"
      for c cs' conditions child
    proof -
      have n: "isSelection n" "\<not> isMemTable n" unfolding Selection by simp_all
      from noSelectionUnderSelection_child [OF Plan.prems(2) [unfolded cs] n(2)] n(1)
      have nc: "\<not> isSelection (node c)" "noSelectionUnderSelection c" by simp_all
      have mem: "c \<in> set cs" unfolding cs by simp
      from nc(1) have pre: "isSelection (node c) \<longrightarrow> conds = []" by simp
      show ?thesis by (rule Plan.IH [OF mem st nc(2) pre rc])
    qed
    from Plan.prems(4) show ?thesis
      unfolding Selection pe by (rule pushdown_fixed_Selection) (rule ih)
  next
    case Other
    have ih: "predicatePushDownNode E child residual = Inr (residual, child)"
      if cs: "cs = c # cs'" and rc: "predicatePushDownNode E c [] = Inr (residual, child)"
      for c cs' residual child
    proof -
      from noSelectionUnderSelection_child [OF Plan.prems(2) [unfolded cs] Other(2)]
      have nc: "noSelectionUnderSelection c" by simp
      have mem: "c \<in> set cs" unfolding cs by simp
      have pre: "isSelection (node c) \<longrightarrow> [] = ([] :: Expression list)" by simp
      show ?thesis by (rule Plan.IH [OF mem st nc pre rc])
    qed
    from Other Plan.prems(4) show ?thesis
      by (rule pushdown_fixed_Other [OF st]) (rule ih)
  qed
qed

text \<open>
  C9, as amended. Let the extractor keep the contract \<open>stableExtract\<close>: given no
  predicates \<^verbatim>\<open>Extract\<close> returns none, and given predicates bound to the schema
  it returns predicates bound to the schema and, applied again in the state it
  left to the predicates it returned, returns exactly these and leaves its
  state unchanged. Then on a plan in which no selection is the child of a
  selection the pass is idempotent: run with no incoming predicates on its own
  output, it returns the same plan, the extractor's state included.
\<close>

theorem pushdown_idempotent_without_stacked_selections:
  assumes "stableExtract E"
    and "noSelectionUnderSelection p"
    and "predicatePushDown E (Some p) [] = Inr (remained, Some p')"
  shows "predicatePushDown E (Some p') [] = Inr ([], Some p')"
proof -
  from assms(3) have r: "predicatePushDownNode E p [] = Inr (remained, p')"
    by (cases "predicatePushDownNode E p []") (auto simp: predicatePushDown_def)
  from pushdown_empty_residual [OF assms(1) r] have e: "remained = []" .
  have pre: "isSelection (node p) \<longrightarrow> [] = ([] :: Expression list)" by simp
  from pushdown_fixed [OF assms(1,2) pre r] e
  have "predicatePushDownNode E p' [] = Inr ([], p')" by simp
  then show ?thesis by (simp add: predicatePushDown_def)
qed

lemma fxExtract_stable: "stableExtract fxEnv"
proof -
  have a: "rebindColumns sch (filter (\<lambda>e. \<not> fxIsTimePred e) predicates)
      = Inr (filter (\<lambda>e. \<not> fxIsTimePred e) predicates)"
    if "rebindColumns sch predicates = Inr predicates" for sch predicates
  proof -
    from rebindColumns_Inr [OF that] have m: "map (setUniqueID sch) predicates = predicates"
      and ok: "list_all (inRange sch) (ExtractColumnsFromExpressions predicates)"
      by simp_all
    have "list_all (inRange sch) (ExtractColumnsFromExpressions (filter (\<lambda>e. \<not> fxIsTimePred e) predicates))"
      using ok by (induction predicates) (auto simp: ExtractColumnsFromExpressions_def)
    moreover have "map (setUniqueID sch) (filter (\<lambda>e. \<not> fxIsTimePred e) predicates)
        = filter (\<lambda>e. \<not> fxIsTimePred e) predicates"
      using m by (induction predicates) auto
    ultimately show ?thesis using rebindColumns_in_range by fastforce
  qed
  show ?thesis
    unfolding stableExtract_def boundToSchema_def
    by (auto simp: fxEnv_def fxExtract_def a)
qed

subsection \<open>Instances of the push-down theorems\<close>

theorem rebind_indexes_schema_unchecked_witness:
  "predicatePushDownNode fxEnv (Plan (MemTable (fxMemTable (Some fxX0))) []) [fxTimePred 1, fxConnPred 5]
     = Inr ([fxConnPredBound 5],
            Plan (MemTable (fxMemTable (Some (fxX0\<lparr>fx_Absorbed := [fxTimePredBound 1]\<rparr>)))) [])
   \<and> map UniqueID (ExtractColumnsFromExpressions
         (map (setUniqueID (schema (fxMemTable (Some fxX0)))) [fxTimePred 1, fxConnPred 5]))
     = [101, 103]
   \<and> predicatePushDownNode fxEnv (Plan (MemTable (fxMemTable (Some fxX0))) []) [fxConnPred 5, fxPred ''eq'' 0 3 8 1]
     = Inl (PanicIndexOutOfRange 3 3)"
proof -
  let ?m = "fxMemTable (Some fxX0)"
  let ?good = "[fxTimePred 1, fxConnPred 5]"
  let ?bad = "[fxConnPred 5, fxPred ''eq'' 0 3 8 1]"
  have x: "Extractor ?m = Some fxX0" by (simp add: fxMemTable_def)
  have g: "list_all (inRange (schema ?m)) (ExtractColumnsFromExpressions ?good)"
    by code_simp
  have b: "\<not> list_all (inRange (schema ?m)) (ExtractColumnsFromExpressions ?bad)"
    by code_simp
  have bc: "find (\<lambda>c. \<not> inRange (schema ?m) c) (ExtractColumnsFromExpressions ?bad)
      = Some \<lparr>UniqueID = 0, ID = 0, Index = 3, RetType = FieldType 8\<rparr>"
    by code_simp
  have len: "length (schema ?m) = 3" by code_simp
  have gv: "Inr (fst (Extract fxEnv fxX0 (schema ?m) (fieldNames ?m) (map (setUniqueID (schema ?m)) ?good)),
                 Plan (MemTable (?m\<lparr>Extractor :=
                    Some (snd (Extract fxEnv fxX0 (schema ?m) (fieldNames ?m)
                                 (map (setUniqueID (schema ?m)) ?good)))\<rparr>)) [])
      = (Inr ([fxConnPredBound 5],
            Plan (MemTable (fxMemTable (Some (fxX0\<lparr>fx_Absorbed := [fxTimePredBound 1]\<rparr>)))) [])
         :: error + Expression list \<times> FxExtractor PhysicalPlan)"
    by code_simp
  have ids: "map UniqueID (map (\<lambda>c. c\<lparr>UniqueID := UniqueID (schema ?m ! nat (Index c))\<rparr>)
                    (ExtractColumnsFromExpressions ?good)) = [101, 103]"
    by code_simp
  note good = rebind_indexes_schema_unchecked [OF x, of ?good fxEnv "[]"]
  note bad = rebind_indexes_schema_unchecked [OF x, of ?bad fxEnv "[]"]
  from good g gv have 1: "predicatePushDownNode fxEnv (Plan (MemTable ?m) []) ?good
     = Inr ([fxConnPredBound 5],
            Plan (MemTable (fxMemTable (Some (fxX0\<lparr>fx_Absorbed := [fxTimePredBound 1]\<rparr>)))) [])"
    by simp
  from good g ids have 2: "map UniqueID (ExtractColumnsFromExpressions (map (setUniqueID (schema ?m)) ?good))
     = [101, 103]"
    by simp
  from bad b bc len have 3: "predicatePushDownNode fxEnv (Plan (MemTable ?m) []) ?bad
     = Inl (PanicIndexOutOfRange 3 3)"
    by auto
  from 1 2 3 show ?thesis by blast
qed

theorem selection_keeps_residual_or_is_elided_witness:
  "predicatePushDownNode fxEnv
       (Plan (PhysicalSelection [fxTimePred 1, fxConnPred 5]) [Plan (MemTable (fxMemTable (Some fxX0))) []])
       [fxConnPred 7]
     = Inr ([fxConnPred 7],
            Plan (PhysicalSelection [fxConnPredBound 5])
              [Plan (MemTable (fxMemTable (Some (fxX0\<lparr>fx_Absorbed := [fxTimePredBound 1]\<rparr>)))) []])
   \<and> predicatePushDownNode fxEnv
       (Plan (PhysicalSelection [fxTimePred 1]) [Plan (MemTable (fxMemTable (Some fxX0))) []])
       [fxConnPred 7]
     = Inr ([fxConnPred 7],
            Plan (MemTable (fxMemTable (Some (fxX0\<lparr>fx_Absorbed := [fxTimePredBound 1]\<rparr>)))) [])"
proof -
  let ?scan = "Plan (MemTable (fxMemTable (Some fxX0))) []"
  let ?scan' = "Plan (MemTable (fxMemTable (Some (fxX0\<lparr>fx_Absorbed := [fxTimePredBound 1]\<rparr>)))) []"
  have a: "predicatePushDownNode fxEnv ?scan [fxTimePred 1, fxConnPred 5]
      = Inr ([fxConnPredBound 5], ?scan')"
    by code_simp
  have b: "predicatePushDownNode fxEnv ?scan [fxTimePred 1] = Inr ([], ?scan')"
    by code_simp
  have ne: "[fxConnPredBound 5] \<noteq> []" by simp
  note kept = selection_keeps_residual_or_is_elided [OF a, of "[]" "[fxConnPred 7]"]
  note elided = selection_keeps_residual_or_is_elided [OF b, of "[]" "[fxConnPred 7]"]
  from kept ne elided show ?thesis by blast
qed

theorem pushdown_never_discards_witness:
  "linear (Plan (PhysicalLimit 10) [Plan (PhysicalSelection [fxTimePred 1, fxConnPred 5]) [fxScanPlan []]])
   \<and> predicatePushDownNode fxEnv
        (Plan (PhysicalLimit 10) [Plan (PhysicalSelection [fxTimePred 1, fxConnPred 5]) [fxScanPlan []]]) []
      = Inr ([], Plan (PhysicalLimit 10)
                   [Plan (PhysicalSelection [fxConnPredBound 5]) [fxScanPlan [fxTimePredBound 1]]])
   \<and> selConds (Plan (PhysicalLimit 10) [Plan (PhysicalSelection [fxTimePred 1, fxConnPred 5]) [fxScanPlan []]])
      = [fxTimePred 1, fxConnPred 5]
   \<and> selConds (Plan (PhysicalLimit 10)
                   [Plan (PhysicalSelection [fxConnPredBound 5]) [fxScanPlan [fxTimePredBound 1]]])
      = [fxConnPredBound 5]
   \<and> (fxTimePred 1 \<in> set (selConds (Plan (PhysicalLimit 10)
                   [Plan (PhysicalSelection [fxConnPredBound 5]) [fxScanPlan [fxTimePredBound 1]]]))
      \<or> (\<exists>conds memTable cs extractor conds' residual extractor'.
        Plan (PhysicalSelection conds) [Plan (MemTable memTable) cs]
          \<in> set (subplans (Plan (PhysicalLimit 10)
                [Plan (PhysicalSelection [fxTimePred 1, fxConnPred 5]) [fxScanPlan []]]))
      \<and> fxTimePred 1 \<in> set conds
      \<and> Extractor memTable = Some extractor
      \<and> rebindColumns (schema memTable) conds = Inr conds'
      \<and> setUniqueID (schema memTable) (fxTimePred 1) \<in> set conds'
      \<and> Extract fxEnv extractor (schema memTable) (fieldNames memTable) conds' = (residual, extractor')
      \<and> set residual \<subseteq> set (selConds (Plan (PhysicalLimit 10)
                   [Plan (PhysicalSelection [fxConnPredBound 5]) [fxScanPlan [fxTimePredBound 1]]]))
      \<and> Plan (MemTable (memTable\<lparr>Extractor := Some extractor'\<rparr>)) cs
          \<in> set (subplans (Plan (PhysicalLimit 10)
                   [Plan (PhysicalSelection [fxConnPredBound 5]) [fxScanPlan [fxTimePredBound 1]]]))))"
proof -
  let ?p = "Plan (PhysicalLimit 10) [Plan (PhysicalSelection [fxTimePred 1, fxConnPred 5]) [fxScanPlan []]]"
  let ?p' = "Plan (PhysicalLimit 10)
                   [Plan (PhysicalSelection [fxConnPredBound 5]) [fxScanPlan [fxTimePredBound 1]]]"
  have l: "linear ?p" by code_simp
  have r: "predicatePushDownNode fxEnv ?p [] = Inr ([], ?p')" by code_simp
  have s: "selConds ?p = [fxTimePred 1, fxConnPred 5]" by code_simp
  have s': "selConds ?p' = [fxConnPredBound 5]" by code_simp
  have c: "fxTimePred 1 \<in> set (selConds ?p)" unfolding s by simp
  from pushdown_never_discards [OF l r c] l r s s' show ?thesis by blast
qed

text \<open>
  C9 as stated fails. A selection above a selection above the slow-log scan,
  both with a comparison on the time column: the first pass hands the lower
  conditions to the extractor and elides the lower selection, and leaves the
  upper one, whose conditions no extractor has seen; the second pass hands
  them to the extractor and elides the upper selection too. The wire list of a
  scan and two selections builds such a plan.
\<close>

theorem pushdown_not_idempotent_on_stacked_selections:
  "predicatePushDown fxEnv
       (Some (Plan (PhysicalSelection [fxTimePred 2]) [Plan (PhysicalSelection [fxTimePred 1]) [fxScanPlan []]])) []
     = Inr ([], Some (Plan (PhysicalSelection [fxTimePred 2]) [fxScanPlan [fxTimePredBound 1]]))
   \<and> predicatePushDown fxEnv
       (Some (Plan (PhysicalSelection [fxTimePred 2]) [fxScanPlan [fxTimePredBound 1]])) []
     = Inr ([], Some (fxScanPlan [fxTimePredBound 1, fxTimePredBound 2]))
   \<and> fxScanPlan [fxTimePredBound 1, fxTimePredBound 2]
     \<noteq> Plan (PhysicalSelection [fxTimePred 2]) [fxScanPlan [fxTimePredBound 1]]
   \<and> Build fxEnv fxState
       [fxScan 1 [1, 2, 3], fxSelectionExec [PBExpr 2 [0] []], fxSelectionExec [PBExpr 2 [0] []]]
     = Inr (Some (Plan (PhysicalSelection [fxTimePred 0]) [fxScanPlan [fxTimePredBound 0]]),
            \<lparr>tps = [FieldType 12, FieldType 15, FieldType 8], PlanColumnID = 103\<rparr>)
   \<and> predicatePushDown fxEnv
       (Some (Plan (PhysicalSelection [fxTimePred 0]) [fxScanPlan [fxTimePredBound 0]])) []
     = Inr ([], Some (fxScanPlan [fxTimePredBound 0, fxTimePredBound 0]))"
  by code_simp

theorem pushdown_idempotent_without_stacked_selections_witness:
  "noSelectionUnderSelection
     (Plan (PhysicalLimit 10) [Plan (PhysicalSelection [fxTimePred 1, fxConnPred 5]) [fxScanPlan []]])
   \<and> predicatePushDown fxEnv
        (Some (Plan (PhysicalLimit 10) [Plan (PhysicalSelection [fxTimePred 1, fxConnPred 5]) [fxScanPlan []]])) []
      = Inr ([], Some (Plan (PhysicalLimit 10)
                   [Plan (PhysicalSelection [fxConnPredBound 5]) [fxScanPlan [fxTimePredBound 1]]]))
   \<and> predicatePushDown fxEnv
        (Some (Plan (PhysicalLimit 10)
                   [Plan (PhysicalSelection [fxConnPredBound 5]) [fxScanPlan [fxTimePredBound 1]]])) []
      = Inr ([], Some (Plan (PhysicalLimit 10)
                   [Plan (PhysicalSelection [fxConnPredBound 5]) [fxScanPlan [fxTimePredBound 1]]]))"
proof -
  let ?p = "Plan (PhysicalLimit 10) [Plan (PhysicalSelection [fxTimePred 1, fxConnPred 5]) [fxScanPlan []]]"
  let ?p' = "Plan (PhysicalLimit 10)
                   [Plan (PhysicalSelection [fxConnPredBound 5]) [fxScanPlan [fxTimePredBound 1]]]"
  have n: "noSelectionUnderSelection ?p" by code_simp
  have r: "predicatePushDown fxEnv (Some ?p) [] = Inr ([], Some ?p')" by code_simp
  from pushdown_idempotent_without_stacked_selections [OF fxExtract_stable n r] n r
  show ?thesis by blast
qed

subsection \<open>Schemas of the built plan\<close>

lemma Build_unique_ids:
  assumes "Build E s executors = Inr (Some p, s')"
  shows "distinct (planUniqueIDs p) \<and> (\<forall>u \<in> set (planUniqueIDs p). PlanColumnID s < u \<and> u \<le> PlanColumnID s')"
proof -
  from assms obtain src where c: "buildChain E s None executors = Inr (src, s')"
    and pd: "\<exists>r. predicatePushDown E src [] = Inr (r, Some p)"
    by (auto simp: Build_def split: sum.splits)
  from c obtain ns where b: "buildNodes E s executors = Inr (ns, s')" and src: "src = link None ns"
    by (auto simp: buildChain_buildNodes split: sum.splits)
  from pd obtain q r where q: "src = Some q" and r: "predicatePushDownNode E q [] = Inr (r, p)"
    by (cases src) (auto simp: predicatePushDown_def split: sum.splits)
  from q src have "ns \<noteq> []" by (cases ns) auto
  from link_None_Some [OF this] q src have lin: "linear q" and ids: "planUniqueIDs q = nodeIDs ns"
    by auto
  from pushdown_preserves [OF lin r] have "planUniqueIDs p = planUniqueIDs q" by simp
  moreover from buildNodes_fresh [OF b] obtain k where
    "nodeIDs ns = freshIDs s k" "PlanColumnID s' = PlanColumnID s + int k"
    by blast
  ultimately show ?thesis
    using ids freshIDs_distinct [of s k] freshIDs_range [of _ s k] by auto
qed


text \<open>
  C7. The schema of a scan lists the matched columns in the order of the
  catalog's column list: one schema column for every pair of a catalog column
  and a resolved column with the same id, so, when the resolved ids are
  distinct, the catalog's ids filtered to the requested ones, whatever the
  order of the request. Each schema column receives the next identifier of the
  session's counter, so the identifiers of a schema are distinct, and in the
  plan that a build returns all identifiers of all schemas are distinct and
  lie above the counter's value at the start of the build.
\<close>

theorem buildTableScanSchema_catalog_order_fresh_ids:
  "(case buildTableScanSchema s tblInfo columns of
      (sch, s') \<Rightarrow>
          map ID sch = map ci_ID (matchedColumns tblInfo columns)
        \<and> map RetType sch = map ci_FieldType (matchedColumns tblInfo columns)
        \<and> map UniqueID sch = freshIDs s (length sch)
        \<and> distinct (map UniqueID sch)
        \<and> s' = s\<lparr>PlanColumnID := PlanColumnID s + int (length sch)\<rparr>
        \<and> (distinct (map ci_ID columns) \<longrightarrow>
             map ID sch = filter (\<lambda>i. i \<in> ci_ID ` set columns) (map ci_ID (ti_Columns tblInfo))))
   \<and> (\<forall>(E :: ('h, 'x) Env) executors p s'.
         Build E s executors = Inr (Some p, s') \<longrightarrow>
           distinct (planUniqueIDs p)
         \<and> (\<forall>u \<in> set (planUniqueIDs p). PlanColumnID s < u \<and> u \<le> PlanColumnID s'))"
proof -
  let ?m = "matchedColumns tblInfo columns"
  let ?sch = "numbered (PlanColumnID s) (map (\<lambda>col. (ci_ID col, ci_FieldType col)) ?m)"
  have 1: "map ID ?sch = map ci_ID ?m" by (simp add: numbered_ID comp_def)
  have 2: "map RetType ?sch = map ci_FieldType ?m" by (simp add: numbered_RetType comp_def)
  have 3: "map UniqueID ?sch = freshIDs s (length ?sch)"
    by (simp add: numbered_UniqueID freshIDs_def)
  have 4: "distinct (map UniqueID ?sch)" unfolding 3 by (rule freshIDs_distinct)
  have 5: "distinct (map ci_ID columns) \<longrightarrow>
      map ID ?sch = filter (\<lambda>i. i \<in> ci_ID ` set columns) (map ci_ID (ti_Columns tblInfo))"
  proof
    assume "distinct (map ci_ID columns)"
    from matchedColumns_distinct [OF this, of tblInfo] show "map ID ?sch
        = filter (\<lambda>i. i \<in> ci_ID ` set columns) (map ci_ID (ti_Columns tblInfo))"
      unfolding 1 by (simp add: filter_map comp_def)
  qed
  have scan: "case buildTableScanSchema s tblInfo columns of
      (sch, s') \<Rightarrow>
          map ID sch = map ci_ID (matchedColumns tblInfo columns)
        \<and> map RetType sch = map ci_FieldType (matchedColumns tblInfo columns)
        \<and> map UniqueID sch = freshIDs s (length sch)
        \<and> distinct (map UniqueID sch)
        \<and> s' = s\<lparr>PlanColumnID := PlanColumnID s + int (length sch)\<rparr>
        \<and> (distinct (map ci_ID columns) \<longrightarrow>
             map ID sch = filter (\<lambda>i. i \<in> ci_ID ` set columns) (map ci_ID (ti_Columns tblInfo)))"
    unfolding buildTableScanSchema_eq prod.case
    using 1 2 3 4 5 by simp
  have build: "\<forall>(E :: ('h, 'x) Env) executors p s'.
         Build E s executors = Inr (Some p, s') \<longrightarrow>
           distinct (planUniqueIDs p)
         \<and> (\<forall>u \<in> set (planUniqueIDs p). PlanColumnID s < u \<and> u \<le> PlanColumnID s')"
    using Build_unique_ids by blast
  from scan build show ?thesis by (rule conjI)
qed

theorem buildTableScanSchema_catalog_order_fresh_ids_witness:
  "buildTableScanSchema fxState fxSlowLog [fxCol 3 ''conn_id'' 8, fxCol 1 ''time'' 12]
     = ([\<lparr>UniqueID = 101, ID = 1, Index = 0, RetType = FieldType 12\<rparr>,
         \<lparr>UniqueID = 102, ID = 3, Index = 0, RetType = FieldType 8\<rparr>],
        fxState\<lparr>PlanColumnID := 102\<rparr>)
   \<and> map ID (fst (buildTableScanSchema fxState fxSlowLog [fxCol 3 ''conn_id'' 8, fxCol 1 ''time'' 12]))
     = [1, 3]
   \<and> map ci_ID [fxCol 3 ''conn_id'' 8, fxCol 1 ''time'' 12] = [3, 1]
   \<and> Build fxEnv fxState
        [fxScan 1 [3, 1], fxAggExec TypeAggregation [PBExpr 3001 [] [], PBExpr 3002 [] []] [PBExpr 1 [0] []],
         fxAggExec TypeStreamAgg [PBExpr 3001 [] []] []]
     = Inr (Some (Plan (PhysicalStreamAgg [\<lparr>af_Name = ''count'', af_Args = [], RetTp = FieldType 8\<rparr>] []
                     [\<lparr>UniqueID = 105, ID = 0, Index = 0, RetType = FieldType 8\<rparr>])
             [Plan (PhysicalHashAgg
                      [\<lparr>af_Name = ''count'', af_Args = [], RetTp = FieldType 8\<rparr>,
                       \<lparr>af_Name = ''max'', af_Args = [], RetTp = FieldType 12\<rparr>]
                      [ColumnExpr \<lparr>UniqueID = 0, ID = 0, Index = 0, RetType = FieldType 8\<rparr>]
                      [\<lparr>UniqueID = 103, ID = 0, Index = 0, RetType = FieldType 8\<rparr>,
                       \<lparr>UniqueID = 104, ID = 0, Index = 0, RetType = FieldType 12\<rparr>])
               [Plan (MemTable
                  \<lparr>DBName = \<lparr>cistr_O = ''INFORMATION_SCHEMA'', cistr_L = ''information_schema''\<rparr>,
                   Table = fxSlowLog, Columns = [fxCol 3 ''conn_id'' 8, fxCol 1 ''time'' 12],
                   Extractor = Some fxX0,
                   schema = [\<lparr>UniqueID = 101, ID = 1, Index = 0, RetType = FieldType 12\<rparr>,
                             \<lparr>UniqueID = 102, ID = 3, Index = 0, RetType = FieldType 8\<rparr>]\<rparr>) []]]),
            \<lparr>tps = [FieldType 8, FieldType 12], PlanColumnID = 105\<rparr>)
   \<and> distinct (planUniqueIDs (Plan (PhysicalStreamAgg [\<lparr>af_Name = ''count'', af_Args = [], RetTp = FieldType 8\<rparr>] []
                     [\<lparr>UniqueID = 105, ID = 0, Index = 0, RetType = FieldType 8\<rparr>])
             [Plan (PhysicalHashAgg
                      [\<lparr>af_Name = ''count'', af_Args = [], RetTp = FieldType 8\<rparr>,
                       \<lparr>af_Name = ''max'', af_Args = [], RetTp = FieldType 12\<rparr>]
                      [ColumnExpr \<lparr>UniqueID = 0, ID = 0, Index = 0, RetType = FieldType 8\<rparr>]
                      [\<lparr>UniqueID = 103, ID = 0, Index = 0, RetType = FieldType 8\<rparr>,
                       \<lparr>UniqueID = 104, ID = 0, Index = 0, RetType = FieldType 12\<rparr>])
               [Plan (MemTable
                  \<lparr>DBName = \<lparr>cistr_O = ''INFORMATION_SCHEMA'', cistr_L = ''information_schema''\<rparr>,
                   Table = fxSlowLog, Columns = [fxCol 3 ''conn_id'' 8, fxCol 1 ''time'' 12],
                   Extractor = Some fxX0,
                   schema = [\<lparr>UniqueID = 101, ID = 1, Index = 0, RetType = FieldType 12\<rparr>,
                             \<lparr>UniqueID = 102, ID = 3, Index = 0, RetType = FieldType 8\<rparr>]\<rparr>) []]]))"
proof -
  let ?cols = "[fxCol 3 ''conn_id'' 8, fxCol 1 ''time'' 12]"
  let ?es = "[fxScan 1 [3, 1], fxAggExec TypeAggregation [PBExpr 3001 [] [], PBExpr 3002 [] []] [PBExpr 1 [0] []],
         fxAggExec TypeStreamAgg [PBExpr 3001 [] []] []]"
  let ?P = "Plan (PhysicalStreamAgg [\<lparr>af_Name = ''count'', af_Args = [], RetTp = FieldType 8\<rparr>] []
                     [\<lparr>UniqueID = 105, ID = 0, Index = 0, RetType = FieldType 8\<rparr>])
             [Plan (PhysicalHashAgg
                      [\<lparr>af_Name = ''count'', af_Args = [], RetTp = FieldType 8\<rparr>,
                       \<lparr>af_Name = ''max'', af_Args = [], RetTp = FieldType 12\<rparr>]
                      [ColumnExpr \<lparr>UniqueID = 0, ID = 0, Index = 0, RetType = FieldType 8\<rparr>]
                      [\<lparr>UniqueID = 103, ID = 0, Index = 0, RetType = FieldType 8\<rparr>,
                       \<lparr>UniqueID = 104, ID = 0, Index = 0, RetType = FieldType 12\<rparr>])
               [Plan (MemTable
                  \<lparr>DBName = \<lparr>cistr_O = ''INFORMATION_SCHEMA'', cistr_L = ''information_schema''\<rparr>,
                   Table = fxSlowLog, Columns = ?cols,
                   Extractor = Some fxX0,
                   schema = [\<lparr>UniqueID = 101, ID = 1, Index = 0, RetType = FieldType 12\<rparr>,
                             \<lparr>UniqueID = 102, ID = 3, Index = 0, RetType = FieldType 8\<rparr>]\<rparr>) []]]"
  have ev: "buildTableScanSchema fxState fxSlowLog ?cols
     = ([\<lparr>UniqueID = 101, ID = 1, Index = 0, RetType = FieldType 12\<rparr>,
         \<lparr>UniqueID = 102, ID = 3, Index = 0, RetType = FieldType 8\<rparr>],
        fxState\<lparr>PlanColumnID := 102\<rparr>)"
    by code_simp
  have d: "distinct (map ci_ID ?cols)" by code_simp
  have f: "filter (\<lambda>i. i \<in> ci_ID ` set ?cols) (map ci_ID (ti_Columns fxSlowLog)) = [1, 3]"
    by code_simp
  have r: "map ci_ID ?cols = [3, 1]" by code_simp
  have b: "Build fxEnv fxState ?es
      = Inr (Some ?P, \<lparr>tps = [FieldType 8, FieldType 12], PlanColumnID = 105\<rparr>)"
    by code_simp
  note t = buildTableScanSchema_catalog_order_fresh_ids
      [where s = fxState and tblInfo = fxSlowLog and columns = ?cols
         and ?'h = bytes and ?'x = FxExtractor]
  from t [unfolded split_beta] have imp: "distinct (map ci_ID ?cols) \<longrightarrow>
      map ID (fst (buildTableScanSchema fxState fxSlowLog ?cols))
        = filter (\<lambda>i. i \<in> ci_ID ` set ?cols) (map ci_ID (ti_Columns fxSlowLog))"
    by blast
  from imp d have x: "map ID (fst (buildTableScanSchema fxState fxSlowLog ?cols))
        = filter (\<lambda>i. i \<in> ci_ID ` set ?cols) (map ci_ID (ti_Columns fxSlowLog))"
    by (rule mp)
  have 1: "map ID (fst (buildTableScanSchema fxState fxSlowLog ?cols)) = [1, 3]"
    unfolding x by (rule f)
  from t b have 2: "distinct (planUniqueIDs ?P)" by blast
  from ev 1 r b 2 show ?thesis by blast
qed



end
